theory Spec2Isabelle
  imports Main
begin

section \<open>Checkout of the storefront: a model of src/pages/Payment.tsx\<close>

text \<open>
  The page component \<^verbatim>\<open>Payment\<close> validates the shipping and payment fields, inserts an
  order header, filters the payable items against the product catalogue, inserts the
  order lines and clears the cart. The model follows the source statement by statement.

  Conventions of the model.
  \<^item> A JavaScript field that may be missing is a value of \<open>'a js\<close>: \<open>Undefined\<close>, \<open>Null\<close>
    or \<open>Val x\<close>. The operator \<^verbatim>\<open>||\<close> is written out with JavaScript's truthiness.
  \<^item> Prices and totals are JavaScript numbers, that is, doubles. Their type \<open>'n\<close> and
    their arithmetic are parameters of the model (\<open>'n number_ops\<close>): the sum, the
    product, which numbers are falsy (0, -0 and NaN), and the number an integer literal
    denotes. Nothing is assumed of these operations, so what is proved holds for the
    arithmetic of doubles, with its rounding, as for any other. A quantity is an
    integer (\<open>int\<close>), falsy when it is 0.
  \<^item> Strings are \<open>string\<close>, read as the bytes of the UTF-8 text. The regular expressions
    of the source only accept ASCII characters, so a string is accepted by the model
    exactly when its text is accepted by the source. The white space that the
    card-number input removes is matched character by character on the UTF-8 bytes.
  \<^item> The storage backend is a record of tables; each request either fails (the response
    carries an error and the tables are unchanged) or succeeds. Which requests fail is
    an input of the model (\<open>backend\<close>). Every request issued is logged in \<open>calls\<close>.
\<close>

subsection \<open>JavaScript values and truthiness\<close>

datatype 'a js = Undefined | Null | Val 'a

text \<open>
  The arithmetic of JavaScript numbers, as far as the checkout uses it: \<^verbatim>\<open>a + b\<close>,
  \<^verbatim>\<open>a * b\<close>, whether a number is falsy, and the number that an integer denotes (the
  literals \<^verbatim>\<open>0\<close> and \<^verbatim>\<open>1\<close>, and a quantity).
\<close>

record 'n number_ops =
  num_add :: "'n \<Rightarrow> 'n \<Rightarrow> 'n"
  num_mul :: "'n \<Rightarrow> 'n \<Rightarrow> 'n"
  num_falsy :: "'n \<Rightarrow> bool"
  num_of_int :: "int \<Rightarrow> 'n"

text \<open>Truthiness of a number-valued and of a string-valued field.\<close>

fun truthy_num :: "'n number_ops \<Rightarrow> 'n js \<Rightarrow> bool" where
  "truthy_num N (Val n) = (\<not> num_falsy N n)"
| "truthy_num N _ = False"

fun truthy_str :: "string js \<Rightarrow> bool" where
  "truthy_str (Val s) = (s \<noteq> [])"
| "truthy_str _ = False"

text \<open>\<^verbatim>\<open>a || b\<close> on two fields, and \<^verbatim>\<open>a || k\<close> with a number literal \<open>k\<close> (the result is
  then always a number): for a price (\<open>or_num\<close>, \<open>or_num_lit\<close>) and for a quantity
  (\<open>or_lit\<close>).\<close>

definition or_num :: "'n number_ops \<Rightarrow> 'n js \<Rightarrow> 'n js \<Rightarrow> 'n js" where
  "or_num N a b = (if truthy_num N a then a else b)"

fun or_num_lit :: "'n number_ops \<Rightarrow> 'n js \<Rightarrow> int \<Rightarrow> 'n" where
  "or_num_lit N (Val n) k = (if num_falsy N n then num_of_int N k else n)"
| "or_num_lit N _ k = num_of_int N k"

definition or_str :: "string js \<Rightarrow> string js \<Rightarrow> string js" where
  "or_str a b = (if truthy_str a then a else b)"

fun or_lit :: "int js \<Rightarrow> int \<Rightarrow> int" where
  "or_lit (Val n) k = (if n \<noteq> 0 then n else k)"
| "or_lit _ k = k"

subsection \<open>Regular expressions of the validation schemas\<close>

text \<open>
  The four patterns of the source are anchored at both ends (\<^verbatim>\<open>^...$\<close>, no flags), so
  \<^verbatim>\<open>regex.test(s)\<close> asks whether the whole string matches. They are built from
  character classes, sequence, alternative, \<^verbatim>\<open>+\<close> and \<^verbatim>\<open>{n}\<close>. The matcher consumes the
  string one character at a time, rewriting the pattern to what may still follow.
\<close>

datatype pattern =
    NoMatch
  | EmptyStr
  | CharClass "char \<Rightarrow> bool"
  | Seq pattern pattern
  | Alt pattern pattern
  | Star pattern

fun accepts_empty :: "pattern \<Rightarrow> bool" where
  "accepts_empty NoMatch = False"
| "accepts_empty EmptyStr = True"
| "accepts_empty (CharClass P) = False"
| "accepts_empty (Seq p q) = (accepts_empty p \<and> accepts_empty q)"
| "accepts_empty (Alt p q) = (accepts_empty p \<or> accepts_empty q)"
| "accepts_empty (Star p) = True"

fun after :: "char \<Rightarrow> pattern \<Rightarrow> pattern" where
  "after c NoMatch = NoMatch"
| "after c EmptyStr = NoMatch"
| "after c (CharClass P) = (if P c then EmptyStr else NoMatch)"
| "after c (Seq p q) =
     (if accepts_empty p then Alt (Seq (after c p) q) (after c q) else Seq (after c p) q)"
| "after c (Alt p q) = Alt (after c p) (after c q)"
| "after c (Star p) = Seq (after c p) (Star p)"

fun regex_test :: "pattern \<Rightarrow> string \<Rightarrow> bool" where
  "regex_test p [] = accepts_empty p"
| "regex_test p (c # cs) = regex_test (after c p) cs"

text \<open>\<^verbatim>\<open>p+\<close> and \<^verbatim>\<open>p{n}\<close>, and a single literal character.\<close>

definition plus_pat :: "pattern \<Rightarrow> pattern" where
  "plus_pat p = Seq p (Star p)"

primrec exactly :: "nat \<Rightarrow> pattern \<Rightarrow> pattern" where
  "exactly 0 p = EmptyStr"
| "exactly (Suc n) p = Seq p (exactly n p)"

definition lit :: "char \<Rightarrow> pattern" where
  "lit a = CharClass (\<lambda>c. c = a)"

text \<open>The classes \<^verbatim>\<open>\d\<close>, \<^verbatim>\<open>\w\<close>, \<^verbatim>\<open>[\w.-]\<close>, \<^verbatim>\<open>[1-9]\<close> and \<^verbatim>\<open>[0-2]\<close>.\<close>

definition digit :: "char \<Rightarrow> bool" where
  "digit c = (c \<in> set ''0123456789'')"

definition word_char :: "char \<Rightarrow> bool" where
  "word_char c =
     (c \<in> set ''abcdefghijklmnopqrstuvwxyzABCDEFGHIJKLMNOPQRSTUVWXYZ0123456789_'')"

definition upi_char :: "char \<Rightarrow> bool" where
  "upi_char c = (word_char c \<or> c = CHR ''.'' \<or> c = CHR ''-'')"

definition digit_1_9 :: "char \<Rightarrow> bool" where
  "digit_1_9 c = (c \<in> set ''123456789'')"

definition digit_0_2 :: "char \<Rightarrow> bool" where
  "digit_0_2 c = (c \<in> set ''012'')"

text \<open>
  The class \<^verbatim>\<open>\s\<close>: the code points of JavaScript's white space and line terminators
  (tab, line feed, vertical tab, form feed, carriage return, space, no-break space,
  U+1680, U+2000 to U+200A, U+2028, U+2029, U+202F, U+205F, U+3000, U+FEFF). All lie in
  the basic plane, so each is one character of a JavaScript string and one to three
  bytes of its UTF-8 text.
\<close>

definition whitespace_code_points :: "nat list" where
  "whitespace_code_points =
     [0x09, 0x0A, 0x0B, 0x0C, 0x0D, 0x20, 0xA0, 0x1680,
      0x2000, 0x2001, 0x2002, 0x2003, 0x2004, 0x2005, 0x2006, 0x2007, 0x2008, 0x2009, 0x200A,
      0x2028, 0x2029, 0x202F, 0x205F, 0x3000, 0xFEFF]"

text \<open>The UTF-8 bytes of a code point of the basic plane.\<close>

definition utf8 :: "nat \<Rightarrow> string" where
  "utf8 n =
     (if n < 0x80 then [char_of n]
      else if n < 0x800 then [char_of (0xC0 + n div 0x40), char_of (0x80 + n mod 0x40)]
      else [char_of (0xE0 + n div 0x1000), char_of (0x80 + n div 0x40 mod 0x40),
            char_of (0x80 + n mod 0x40)])"

definition whitespace_encodings :: "string list" where
  "whitespace_encodings = map utf8 whitespace_code_points"

text \<open>
  \<^verbatim>\<open>s.replace(/\s/g, '')\<close>: going through the text from the left, a character of the
  class is dropped and any other byte is kept. In UTF-8 no character's bytes begin inside
  another character, so in the text of a string a match found at a byte is a match of
  the character that begins there.
\<close>

fun remove_whitespace :: "string \<Rightarrow> string" where
  "remove_whitespace [] = []"
| "remove_whitespace (c # cs) =
     (case find (\<lambda>e. take (length e) (c # cs) = e) whitespace_encodings of
        Some e \<Rightarrow> remove_whitespace (drop (length e - 1) cs)
      | None \<Rightarrow> c # remove_whitespace cs)"

text \<open>\<^verbatim>\<open>/^[\w.-]+@[\w.-]+$/\<close>\<close>

definition upi_regex :: pattern where
  "upi_regex = Seq (plus_pat (CharClass upi_char)) (Seq (lit CHR ''@'') (plus_pat (CharClass upi_char)))"

text \<open>\<^verbatim>\<open>/^\d{16}$/\<close>\<close>

definition cardNumber_regex :: pattern where
  "cardNumber_regex = exactly 16 (CharClass digit)"

text \<open>\<^verbatim>\<open>/^(0[1-9]|1[0-2])\/\d{2}$/\<close>\<close>

definition expiry_regex :: pattern where
  "expiry_regex =
     Seq (Alt (Seq (lit CHR ''0'') (CharClass digit_1_9)) (Seq (lit CHR ''1'') (CharClass digit_0_2)))
       (Seq (lit CHR ''/'') (exactly 2 (CharClass digit)))"

text \<open>\<^verbatim>\<open>/^\d{3}$/\<close>\<close>

definition cvv_regex :: pattern where
  "cvv_regex = exactly 3 (CharClass digit)"

subsection \<open>Errors and the validation schemas\<close>

text \<open>
  What \<^verbatim>\<open>mutationFn\<close> can throw: a \<^verbatim>\<open>ZodError\<close> with its list of issue messages (in the
  order of the schema's keys), a plain \<^verbatim>\<open>Error\<close> with a message, or the error object of
  a failed storage request with its message.
\<close>

datatype error = ZodError "string list" | Error string | PostgrestError string

text \<open>\<^verbatim>\<open>z.string().regex(re, msg)\<close>: the issues of one field.\<close>

definition regex_issues :: "pattern \<Rightarrow> string \<Rightarrow> string \<Rightarrow> string list" where
  "regex_issues re msg s = (if regex_test re s then [] else [msg])"

text \<open>\<^verbatim>\<open>schema.parse(...)\<close> throws when there is an issue; \<open>None\<close> is the normal return.\<close>

definition parse_result :: "string list \<Rightarrow> error option" where
  "parse_result issues = (if issues = [] then None else Some (ZodError issues))"

definition upiSchema_parse :: "string \<Rightarrow> error option" where
  "upiSchema_parse upiId = parse_result (regex_issues upi_regex ''Invalid UPI ID format'' upiId)"

definition cardSchema_parse :: "string \<Rightarrow> string \<Rightarrow> string \<Rightarrow> error option" where
  "cardSchema_parse cardNumber expiry cvv =
     parse_result
       (regex_issues cardNumber_regex ''Card number must be 16 digits'' cardNumber @
        regex_issues expiry_regex ''Invalid expiry format (MM/YY)'' expiry @
        regex_issues cvv_regex ''CVV must be 3 digits'' cvv)"

text \<open>
  \<^verbatim>\<open>onError\<close>: the text of the toast. For a \<^verbatim>\<open>ZodError\<close> it is the message of the first
  issue (with no issue the handler itself would throw: \<open>None\<close>); otherwise the error's
  message, or the fallback when the message is empty.
\<close>

fun onError :: "error \<Rightarrow> string option" where
  "onError (ZodError []) = None"
| "onError (ZodError (m # ms)) = Some m"
| "onError (Error m) = Some (if m \<noteq> [] then m else ''Failed to place order'')"
| "onError (PostgrestError m) = Some (if m \<noteq> [] then m else ''Failed to place order'')"

text \<open>The card-number input stores its value with all whitespace removed
  (\<^verbatim>\<open>e.target.value.replace(/\s/g, '')\<close>); the other inputs store the value as typed.\<close>

definition cardNumber_onChange :: "string \<Rightarrow> string" where
  "cardNumber_onChange v = remove_whitespace v"


subsection \<open>Items to pay for\<close>

text \<open>The nested \<^verbatim>\<open>products\<close> object of a cart row; the checkout only reads its price.\<close>

record 'n product_row =
  row_price :: "'n js"

text \<open>
  An element of \<^verbatim>\<open>itemsForPayment\<close>: a cart row joined with its product, or the product
  of a buy-now with a quantity. Every field may be missing. (\<open>item_id\<close> is the field
  \<^verbatim>\<open>id\<close>.)
\<close>

record 'n item =
  product_id :: "string js"
  item_id :: "string js"
  price :: "'n js"
  products :: "'n product_row js"
  quantity :: "int js"

text \<open>\<^verbatim>\<open>item.products?.price\<close>\<close>

fun products_price :: "'n product_row js \<Rightarrow> 'n js" where
  "products_price (Val p) = row_price p"
| "products_price _ = Undefined"

text \<open>\<^verbatim>\<open>item.price || item.products?.price || 0\<close>\<close>

definition unit_price :: "'n number_ops \<Rightarrow> 'n item \<Rightarrow> 'n" where
  "unit_price N it = or_num_lit N (or_num N (price it) (products_price (products it))) 0"

text \<open>\<^verbatim>\<open>location.state || {}\<close>: the buy-now flag, the product and the quantity.\<close>

record 'n location_state =
  buyNow :: bool
  product :: "'n item"
  state_quantity :: "int js"

text \<open>\<^verbatim>\<open>buyNowState.quantity || 1\<close>\<close>

definition buyNowQuantity :: "'n location_state \<Rightarrow> int" where
  "buyNowQuantity st = or_lit (state_quantity st) 1"

text \<open>\<^verbatim>\<open>isBuyNow ? [{ ...buyNowProduct, quantity: buyNowQuantity }] : cartItems || []\<close>;
  \<open>cartItems\<close> is \<open>None\<close> while the cart query has no data.\<close>

definition itemsForPayment :: "'n location_state \<Rightarrow> 'n item list option \<Rightarrow> 'n item list" where
  "itemsForPayment st cartItems =
     (if buyNow st then [(product st)\<lparr>quantity := Val (buyNowQuantity st)\<rparr>]
      else (case cartItems of Some rows \<Rightarrow> rows | None \<Rightarrow> []))"

text \<open>
  \<^verbatim>\<open>itemsForPayment.reduce((sum, item) => sum + (price) * (item.quantity || 1), 0)\<close>:
  the callback, and the reduction from the left starting at \<^verbatim>\<open>0\<close>.
\<close>

definition total_step :: "'n number_ops \<Rightarrow> 'n \<Rightarrow> 'n item \<Rightarrow> 'n" where
  "total_step N acc it =
     num_add N acc (num_mul N (unit_price N it) (num_of_int N (or_lit (quantity it) 1)))"

definition total :: "'n number_ops \<Rightarrow> 'n item list \<Rightarrow> 'n" where
  "total N its = foldl (total_step N) (num_of_int N 0) its"

subsection \<open>The storage backend\<close>

record 'n order =
  order_id :: string
  user_id :: string
  total_amount :: 'n
  payment_method :: string
  payment_status :: string
  delivery_status :: string
  order_address :: string
  order_phone :: string

record 'n order_item =
  oi_order_id :: string
  oi_product_id :: "string js"
  oi_quantity :: "int js"
  oi_price :: 'n

text \<open>A row of \<^verbatim>\<open>products\<close> as \<^verbatim>\<open>select('id')\<close> returns it.\<close>

record catalog_row =
  row_id :: "string js"

datatype call = InsertOrder | SelectProductIds | InsertOrderItems | DeleteCartItems

text \<open>The tables (a cart row is stored with its owner's user id), and the log of the
  requests issued so far.\<close>

record 'n store =
  orders :: "'n order list"
  order_items :: "'n order_item list"
  cart_items :: "(string \<times> 'n item) list"
  products_table :: "catalog_row list"
  calls :: "call list"

text \<open>The responses of one attempt: the error of each request, if it fails, and the
  identity the backend gives the new order.\<close>

record backend =
  orderError :: "string option"
  new_order_id :: string
  prodErr :: "string option"
  itemsError :: "string option"
  clearError :: "string option"

subsection \<open>The mutation \<^verbatim>\<open>createOrder\<close>\<close>

text \<open>The component state the mutation closes over.\<close>

record 'n checkout =
  user :: "string option"
  isBuyNow :: bool
  items :: "'n item list"
  paymentMethod :: string
  upiId :: string
  cardNumber :: string
  expiry :: string
  cvv :: string
  selectedBank :: string
  address :: string
  phone :: string

text \<open>Lines 84-90: the payment-method fields.\<close>

definition validate_payment :: "'n checkout \<Rightarrow> error option" where
  "validate_payment c =
     (if paymentMethod c = ''upi'' then upiSchema_parse (upiId c)
      else if paymentMethod c = ''card'' then cardSchema_parse (cardNumber c) (expiry c) (cvv c)
      else if paymentMethod c = ''netbanking'' \<and> selectedBank c = [] then
        Some (Error ''Please select a bank'')
      else None)"

text \<open>Lines 114-129: one item becomes an order line, or \<^verbatim>\<open>null\<close> when its product is not
  in the catalogue; \<^verbatim>\<open>filter(Boolean)\<close> then removes the nulls.\<close>

definition prodId :: "'n item \<Rightarrow> string js" where
  "prodId it = or_str (product_id it) (item_id it)"

definition order_line ::
  "'n number_ops \<Rightarrow> string \<Rightarrow> string js list \<Rightarrow> 'n item \<Rightarrow> 'n order_item option" where
  "order_line N oid validProductIds it =
     (if prodId it \<notin> set validProductIds then None
      else Some \<lparr>oi_order_id = oid, oi_product_id = prodId it, oi_quantity = quantity it,
                 oi_price = unit_price N it\<rparr>)"

primrec filter_Boolean :: "'a option list \<Rightarrow> 'a list" where
  "filter_Boolean [] = []"
| "filter_Boolean (x # xs) = (case x of None \<Rightarrow> filter_Boolean xs | Some y \<Rightarrow> y # filter_Boolean xs)"

definition orderItems ::
  "'n number_ops \<Rightarrow> string \<Rightarrow> string js list \<Rightarrow> 'n item list \<Rightarrow> 'n order_item list" where
  "orderItems N oid validProductIds its =
     filter_Boolean (map (order_line N oid validProductIds) its)"

text \<open>A request is logged when it is issued.\<close>

definition request :: "call \<Rightarrow> 'n store \<Rightarrow> 'n store" where
  "request r s = s\<lparr>calls := calls s @ [r]\<rparr>"

text \<open>Lines 93-105: the row of \<^verbatim>\<open>orders\<close> that the insert returns, with the identity the
  backend gave it.\<close>

definition new_order :: "'n number_ops \<Rightarrow> string \<Rightarrow> 'n checkout \<Rightarrow> backend \<Rightarrow> 'n order" where
  "new_order N uid c b =
     \<lparr>order_id = new_order_id b, user_id = uid, total_amount = total N (items c),
      payment_method = paymentMethod c, payment_status = ''completed'',
      delivery_status = ''ordered'', order_address = address c, order_phone = phone c\<rparr>"

text \<open>Lines 92-145: the four requests, each after the one before has succeeded. The
  result is what the mutation returns or throws, with the store it leaves behind.\<close>

definition place ::
  "'n number_ops \<Rightarrow> string \<Rightarrow> 'n checkout \<Rightarrow> backend \<Rightarrow> 'n store \<Rightarrow> (error + 'n order) \<times> 'n store" where
  "place N uid c b s =
     (let s1 = request InsertOrder s in
      (case orderError b of
         Some e \<Rightarrow> (Inl (PostgrestError e), s1)
       | None \<Rightarrow>
          (let ord = new_order N uid c b;
               s2 = s1\<lparr>orders := orders s1 @ [ord]\<rparr>;
               s3 = request SelectProductIds s2
           in
           (case prodErr b of
              Some e \<Rightarrow> (Inl (PostgrestError e), s3)
            | None \<Rightarrow>
               (let validProductIds = map row_id (products_table s3);
                    lines = orderItems N (order_id ord) validProductIds (items c)
                in
                if lines = [] then (Inl (Error ''No valid products found for this order''), s3)
                else
                  (let s4 = request InsertOrderItems s3 in
                   (case itemsError b of
                      Some e \<Rightarrow> (Inl (PostgrestError e), s4)
                    | None \<Rightarrow>
                       (let s5 = s4\<lparr>order_items := order_items s4 @ lines\<rparr> in
                        if \<not> isBuyNow c then
                          (let s6 = request DeleteCartItems s5 in
                           (case clearError b of
                              Some e \<Rightarrow> (Inl (PostgrestError e), s6)
                            | None \<Rightarrow>
                               (Inr ord,
                                s6\<lparr>cart_items := filter (\<lambda>row. fst row \<noteq> uid) (cart_items s6)\<rparr>)))
                        else (Inr ord, s5)))))))))"

text \<open>Lines 76-146: the checks of lines 77-90, then the requests.\<close>

definition createOrder ::
  "'n number_ops \<Rightarrow> 'n checkout \<Rightarrow> backend \<Rightarrow> 'n store \<Rightarrow> (error + 'n order) \<times> 'n store" where
  "createOrder N c b s =
     (case user c of
        None \<Rightarrow> (Inl (Error ''Cart is empty''), s)
      | Some uid \<Rightarrow>
         (if items c = [] then (Inl (Error ''Cart is empty''), s)
          else if address c = [] then (Inl (Error ''Please enter your address''), s)
          else if phone c = [] then (Inl (Error ''Please enter your phone number''), s)
          else
            (case validate_payment c of
               Some e \<Rightarrow> (Inl e, s)
             | None \<Rightarrow> place N uid c b s)))"

text \<open>Lines 162-173: the page (and with it the button that runs the mutation) is only
  rendered for a signed-in user with something to pay for; otherwise the component
  navigates away and renders nothing.\<close>

definition page_shown :: "string option \<Rightarrow> 'n location_state \<Rightarrow> 'n item list option \<Rightarrow> bool" where
  "page_shown usr st cartItems =
     (if usr = None then False
      else if \<not> buyNow st \<and> (case cartItems of None \<Rightarrow> True | Some rows \<Rightarrow> rows = []) then False
      else if buyNow st \<and> itemsForPayment st cartItems = [] then False
      else True)"

subsection \<open>Sample data\<close>

text \<open>
  Exact arithmetic on integers. The arithmetic of doubles is this one as long as the
  operands and the result are integers of magnitude at most \<open>2 ^ 53\<close>, as they are in the
  sample data below.
\<close>

definition integer_ops :: "int number_ops" where
  "integer_ops =
     \<lparr>num_add = (\<lambda>a b. a + b), num_mul = (\<lambda>a b. a * b), num_falsy = (\<lambda>a. a = 0),
      num_of_int = (\<lambda>k. k)\<rparr>"

text \<open>A cart row for product \<^verbatim>\<open>p1\<close> (price 100, two pieces), a checkout of user \<^verbatim>\<open>u1\<close> with
  that row in the cart, paying cash on delivery, a backend where every request succeeds,
  and a store whose catalogue holds the given product identities.\<close>

definition sample_item :: "int item" where
  "sample_item =
     \<lparr>product_id = Val ''p1'', item_id = Val ''row1'', price = Undefined,
      products = Val \<lparr>row_price = Val 100\<rparr>, quantity = Val 2\<rparr>"

definition sample_checkout :: "int checkout" where
  "sample_checkout =
     \<lparr>user = Some ''u1'', isBuyNow = False, items = [sample_item], paymentMethod = ''cod'',
      upiId = [], cardNumber = [], expiry = [], cvv = [], selectedBank = [],
      address = ''12 Main Road'', phone = ''9876543210''\<rparr>"

definition all_ok :: backend where
  "all_ok =
     \<lparr>orderError = None, new_order_id = ''o1'', prodErr = None, itemsError = None,
      clearError = None\<rparr>"

definition sample_store :: "string list \<Rightarrow> int store" where
  "sample_store ids =
     \<lparr>orders = [], order_items = [],
      cart_items = [(''u1'', sample_item), (''u2'', sample_item)],
      products_table = map (\<lambda>i. \<lparr>row_id = Val i\<rparr>) ids, calls = []\<rparr>"

subsection \<open>The words a pattern matches\<close>

text \<open>The set of strings of a pattern, used to say what \<open>regex_test\<close> accepts.\<close>

definition conc :: "string set \<Rightarrow> string set \<Rightarrow> string set" where
  "conc A B = {u @ v | u v. u \<in> A \<and> v \<in> B}"

inductive_set star :: "string set \<Rightarrow> string set" for A :: "string set" where
  star_empty: "[] \<in> star A"
| star_more: "u \<in> A \<Longrightarrow> v \<in> star A \<Longrightarrow> u @ v \<in> star A"

fun lang :: "pattern \<Rightarrow> string set" where
  "lang NoMatch = {}"
| "lang EmptyStr = {[]}"
| "lang (CharClass P) = {[c] | c. P c}"
| "lang (Seq p q) = conc (lang p) (lang q)"
| "lang (Alt p q) = lang p \<union> lang q"
| "lang (Star p) = star (lang p)"

subsection \<open>The validation rules in the words of the specification\<close>

text \<open>The value of a decimal digit, and the number a string of digits writes.\<close>

definition digit_value :: "char \<Rightarrow> nat" where
  "digit_value c = of_char c - of_char CHR ''0''"

definition month_number :: "string \<Rightarrow> nat" where
  "month_number mm = foldl (\<lambda>n c. 10 * n + digit_value c) 0 mm"

text \<open>An expiry \<^verbatim>\<open>MM/YY\<close>: two digits that write a month from 01 to 12, a slash, two
  digits.\<close>

definition is_MM_YY :: "string \<Rightarrow> bool" where
  "is_MM_YY e =
     (length e = 5 \<and> list_all digit (take 2 e) \<and> 1 \<le> month_number (take 2 e) \<and>
      month_number (take 2 e) \<le> 12 \<and> e ! 2 = CHR ''/'' \<and> list_all digit (drop 3 e))"

text \<open>The month part of \<open>expiry_regex\<close>.\<close>

definition month_pat :: pattern where
  "month_pat = Alt (Seq (lit CHR ''0'') (CharClass digit_1_9)) (Seq (lit CHR ''1'') (CharClass digit_0_2))"

section \<open>The matcher accepts the words of the pattern\<close>

lemma accepts_empty_lang: "accepts_empty p \<longleftrightarrow> [] \<in> lang p"
  by (induction p) (auto simp: conc_def intro: star.star_empty)

lemma in_conc: "w \<in> conc A B \<longleftrightarrow> (\<exists>u v. w = u @ v \<and> u \<in> A \<and> v \<in> B)"
  by (auto simp: conc_def)

lemma cons_in_conc:
  "c # w \<in> conc A B \<longleftrightarrow>
     (\<exists>u v. w = u @ v \<and> c # u \<in> A \<and> v \<in> B) \<or> ([] \<in> A \<and> c # w \<in> B)"
  by (auto simp: conc_def Cons_eq_append_conv)

lemma cons_in_star_D:
  assumes "x \<in> star A" and "x = c # w"
  shows "\<exists>u v. w = u @ v \<and> c # u \<in> A \<and> v \<in> star A"
  using assms
proof (induction arbitrary: w rule: star.induct)
  case star_empty
  then show ?case by simp
next
  case (star_more u v)
  show ?case
  proof (cases u)
    case Nil
    with star_more show ?thesis by simp
  next
    case (Cons d u')
    with star_more have "d = c" "w = u' @ v" by simp_all
    with Cons star_more show ?thesis by blast
  qed
qed

lemma cons_in_star:
  "c # w \<in> star A \<longleftrightarrow> (\<exists>u v. w = u @ v \<and> c # u \<in> A \<and> v \<in> star A)"
proof
  assume "c # w \<in> star A"
  then show "\<exists>u v. w = u @ v \<and> c # u \<in> A \<and> v \<in> star A"
    by (rule cons_in_star_D) simp
next
  assume "\<exists>u v. w = u @ v \<and> c # u \<in> A \<and> v \<in> star A"
  then obtain u v where "w = u @ v" "c # u \<in> A" "v \<in> star A" by blast
  then show "c # w \<in> star A"
    using star.star_more [of "c # u" A v] by simp
qed

lemma conc_after:
  "{w. c # w \<in> conc A B} =
     conc {w. c # w \<in> A} B \<union> (if [] \<in> A then {w. c # w \<in> B} else {})"
  apply (rule set_eqI)
  apply (simp only: mem_Collect_eq cons_in_conc)
  apply (cases "[] \<in> A")
   apply (simp_all add: in_conc)
  done

lemma star_after: "{w. c # w \<in> star A} = conc {w. c # w \<in> A} (star A)"
  apply (rule set_eqI)
  apply (simp only: mem_Collect_eq cons_in_star)
  apply (simp add: in_conc)
  done

lemma lang_after: "lang (after c p) = {w. c # w \<in> lang p}"
proof (induction p)
  case (Seq p q)
  then show ?case
    by (simp add: conc_after accepts_empty_lang)
next
  case (Star p)
  then show ?case
    by (simp add: star_after)
qed auto

lemma regex_test_lang: "regex_test p w \<longleftrightarrow> w \<in> lang p"
  by (induction w arbitrary: p) (simp_all add: accepts_empty_lang lang_after)

section \<open>What the four patterns accept\<close>

lemma in_conc_class:
  "w \<in> conc {[c] | c. P c} B \<longleftrightarrow> (\<exists>c v. w = c # v \<and> P c \<and> v \<in> B)"
proof
  assume "w \<in> conc {[c] | c. P c} B"
  then show "\<exists>c v. w = c # v \<and> P c \<and> v \<in> B"
    by (auto simp: conc_def)
next
  assume "\<exists>c v. w = c # v \<and> P c \<and> v \<in> B"
  then obtain c v where "w = [c] @ v" "P c" "v \<in> B" by auto
  then show "w \<in> conc {[c] | c. P c} B"
    unfolding in_conc by blast
qed

lemma in_conc_single: "w \<in> conc {[a]} B \<longleftrightarrow> (\<exists>v. w = a # v \<and> v \<in> B)"
  by (simp add: in_conc)

lemma lang_exactly: "lang (exactly n (CharClass P)) = {s. length s = n \<and> list_all P s}"
proof (induction n)
  case 0
  show ?case by auto
next
  case (Suc n)
  show ?case
    apply (rule set_eqI)
    apply (simp add: Suc in_conc_class length_Suc_conv)
    apply auto
    done
qed

lemma lang_star_class: "lang (Star (CharClass P)) = {s. list_all P s}"
proof (rule set_eqI)
  fix s
  have "list_all P s \<Longrightarrow> s \<in> star {[c] | c. P c}"
  proof (induction s)
    case Nil
    show ?case by (rule star.star_empty)
  next
    case (Cons a s)
    then have "[a] \<in> {[c] | c. P c}" "s \<in> star {[c] | c. P c}" by auto
    then have "[a] @ s \<in> star {[c] | c. P c}" by (rule star.star_more)
    then show ?case by simp
  qed
  moreover have "s \<in> star {[c] | c. P c} \<Longrightarrow> list_all P s"
    by (induction rule: star.induct) auto
  ultimately show "s \<in> lang (Star (CharClass P)) \<longleftrightarrow> s \<in> {s. list_all P s}"
    by auto
qed

lemma lang_plus_class: "lang (plus_pat (CharClass P)) = {s. s \<noteq> [] \<and> list_all P s}"
  apply (rule set_eqI)
  apply (simp only: plus_pat_def lang.simps(4) lang_star_class)
  apply (simp only: lang.simps in_conc_class)
  apply (auto simp: neq_Nil_conv)
  done

lemma lang_lit: "lang (lit a) = {[a]}"
  by (auto simp: lit_def)

lemma test_exactly: "regex_test (exactly n (CharClass P)) s \<longleftrightarrow> length s = n \<and> list_all P s"
  by (simp add: regex_test_lang lang_exactly)

lemma test_upi:
  "regex_test upi_regex s \<longleftrightarrow>
     (\<exists>a b. s = a @ ''@'' @ b \<and> a \<noteq> [] \<and> list_all upi_char a \<and> b \<noteq> [] \<and> list_all upi_char b)"
  by (simp add: regex_test_lang upi_regex_def lang_plus_class lang_lit in_conc) blast

lemma lang_lit_class: "lang (Seq (lit a) (CharClass P)) = {[a, c] | c. P c}"
  by (rule set_eqI) (auto simp: lang_lit in_conc_single)

lemma lang_month:
  "w \<in> lang month_pat \<longleftrightarrow>
     (\<exists>m2. w = [CHR ''0'', m2] \<and> digit_1_9 m2 \<or> w = [CHR ''1'', m2] \<and> digit_0_2 m2)"
  unfolding month_pat_def lang.simps(5) lang_lit_class by auto

lemma lang_year:
  "w \<in> lang (Seq (lit CHR ''/'') (exactly 2 (CharClass digit))) \<longleftrightarrow>
     (\<exists>y1 y2. w = [CHR ''/'', y1, y2] \<and> digit y1 \<and> digit y2)"
  unfolding lang.simps(4) lang_lit lang_exactly in_conc_single
  by (auto simp: length_Suc_conv numeral_2_eq_2)

lemma test_expiry:
  "regex_test expiry_regex s \<longleftrightarrow>
     (\<exists>m2 y1 y2. (s = [CHR ''0'', m2, CHR ''/'', y1, y2] \<and> digit_1_9 m2 \<or>
                  s = [CHR ''1'', m2, CHR ''/'', y1, y2] \<and> digit_0_2 m2) \<and> digit y1 \<and> digit y2)"
  (is "?L \<longleftrightarrow> ?R")
proof -
  let ?year = "Seq (lit CHR ''/'') (exactly 2 (CharClass digit))"
  have split: "expiry_regex = Seq month_pat ?year"
    by (simp add: expiry_regex_def month_pat_def)
  have L: "?L \<longleftrightarrow> (\<exists>u v. s = u @ v \<and> u \<in> lang month_pat \<and> v \<in> lang ?year)"
    unfolding regex_test_lang split lang.simps(4) [of month_pat] in_conc ..
  show ?thesis
  proof
    assume ?L
    then obtain u v where s: "s = u @ v" and u: "u \<in> lang month_pat" and v: "v \<in> lang ?year"
      unfolding L by blast
    from v obtain y1 y2 where v': "v = [CHR ''/'', y1, y2]" "digit y1" "digit y2"
      unfolding lang_year by blast
    from u obtain m2 where
      "u = [CHR ''0'', m2] \<and> digit_1_9 m2 \<or> u = [CHR ''1'', m2] \<and> digit_0_2 m2"
      unfolding lang_month by blast
    with s v' show ?R by auto
  next
    assume ?R
    then obtain m2 y1 y2 where
      s: "s = [CHR ''0'', m2, CHR ''/'', y1, y2] \<and> digit_1_9 m2 \<or>
          s = [CHR ''1'', m2, CHR ''/'', y1, y2] \<and> digit_0_2 m2"
      and y: "digit y1" "digit y2"
      by blast
    from y have v: "[CHR ''/'', y1, y2] \<in> lang ?year"
      unfolding lang_year by blast
    from s obtain m1 where s': "s = [m1, m2] @ [CHR ''/'', y1, y2]"
      and "[m1, m2] \<in> lang month_pat"
      unfolding lang_month by auto
    with v show ?L unfolding L by blast
  qed
qed

lemma digit_cases:
  "digit c \<longleftrightarrow> c = CHR ''0'' \<or> c = CHR ''1'' \<or> c = CHR ''2'' \<or> c = CHR ''3'' \<or> c = CHR ''4'' \<or>
     c = CHR ''5'' \<or> c = CHR ''6'' \<or> c = CHR ''7'' \<or> c = CHR ''8'' \<or> c = CHR ''9''"
  by (auto simp: digit_def)

lemma digit_value_simps:
  "digit_value CHR ''0'' = 0" "digit_value CHR ''1'' = 1" "digit_value CHR ''2'' = 2"
  "digit_value CHR ''3'' = 3" "digit_value CHR ''4'' = 4" "digit_value CHR ''5'' = 5"
  "digit_value CHR ''6'' = 6" "digit_value CHR ''7'' = 7" "digit_value CHR ''8'' = 8"
  "digit_value CHR ''9'' = 9"
  by (simp_all add: digit_value_def)

lemma month_number_two: "month_number [a, b] = 10 * digit_value a + digit_value b"
  by (simp add: month_number_def)

lemma month_first: "digit a \<Longrightarrow> 10 * digit_value a \<le> 12 \<Longrightarrow> a = CHR ''0'' \<or> a = CHR ''1''"
  unfolding digit_cases by (elim disjE; simp add: digit_value_simps)

lemma month_second_0: "digit b \<Longrightarrow> 1 \<le> digit_value b \<Longrightarrow> digit_1_9 b"
  unfolding digit_cases by (elim disjE; simp add: digit_value_simps digit_1_9_def)

lemma month_second_1: "digit b \<Longrightarrow> 10 + digit_value b \<le> 12 \<Longrightarrow> digit_0_2 b"
  unfolding digit_cases by (elim disjE; simp add: digit_value_simps digit_0_2_def)

lemma digit_1_9_D: "digit_1_9 b \<Longrightarrow> digit b \<and> 1 \<le> digit_value b \<and> digit_value b \<le> 9"
  unfolding digit_1_9_def digit_def by (auto simp: digit_value_simps)

lemma digit_0_2_D: "digit_0_2 b \<Longrightarrow> digit b \<and> digit_value b \<le> 2"
  unfolding digit_0_2_def digit_def by (auto simp: digit_value_simps)

lemma month_digits:
  "(a = CHR ''0'' \<and> digit_1_9 b \<or> a = CHR ''1'' \<and> digit_0_2 b) \<longleftrightarrow>
     digit a \<and> digit b \<and> 1 \<le> month_number [a, b] \<and> month_number [a, b] \<le> 12"
  (is "?L \<longleftrightarrow> ?R")
proof
  assume ?L
  then show ?R
  proof
    assume "a = CHR ''0'' \<and> digit_1_9 b"
    then show ?R
      using digit_1_9_D [of b] by (simp add: month_number_two digit_value_simps digit_cases)
  next
    assume "a = CHR ''1'' \<and> digit_0_2 b"
    then show ?R
      using digit_0_2_D [of b] by (simp add: month_number_two digit_value_simps digit_cases)
  qed
next
  assume R: ?R
  then have "a = CHR ''0'' \<or> a = CHR ''1''"
    by (intro month_first) (simp_all add: month_number_two)
  then show ?L
  proof
    assume a: "a = CHR ''0''"
    with R have "digit_1_9 b"
      by (intro month_second_0) (simp_all add: month_number_two digit_value_simps)
    with a show ?L by simp
  next
    assume a: "a = CHR ''1''"
    with R have "digit_0_2 b"
      by (intro month_second_1) (simp_all add: month_number_two digit_value_simps)
    with a show ?L by simp
  qed
qed

lemma list5: "length e = 5 \<longleftrightarrow> (\<exists>a b c d f. e = [a, b, c, d, f])"
  by (auto simp: length_Suc_conv eval_nat_numeral)

lemma test_expiry_MM_YY: "regex_test expiry_regex e \<longleftrightarrow> is_MM_YY e"
proof
  assume "regex_test expiry_regex e"
  then obtain a m2 y1 y2 where e: "e = [a, m2, CHR ''/'', y1, y2]"
    and m: "a = CHR ''0'' \<and> digit_1_9 m2 \<or> a = CHR ''1'' \<and> digit_0_2 m2"
    and y: "digit y1" "digit y2"
    unfolding test_expiry by blast
  from m have "digit a \<and> digit m2 \<and> 1 \<le> month_number [a, m2] \<and> month_number [a, m2] \<le> 12"
    by (simp only: month_digits)
  with e y show "is_MM_YY e"
    by (simp add: is_MM_YY_def)
next
  assume "is_MM_YY e"
  then obtain a b c d f where e: "e = [a, b, c, d, f]" and ok: "is_MM_YY [a, b, c, d, f]"
    unfolding is_MM_YY_def list5 by blast
  from ok have c: "c = CHR ''/''" and y: "digit d" "digit f"
    and "digit a \<and> digit b \<and> 1 \<le> month_number [a, b] \<and> month_number [a, b] \<le> 12"
    by (simp_all add: is_MM_YY_def)
  then have "a = CHR ''0'' \<and> digit_1_9 b \<or> a = CHR ''1'' \<and> digit_0_2 b"
    by (simp only: month_digits)
  with e c y show "regex_test expiry_regex e"
    unfolding test_expiry by blast
qed

section \<open>Payment input validation\<close>

lemma test_cardNumber: "regex_test cardNumber_regex n \<longleftrightarrow> length n = 16 \<and> list_all digit n"
  by (simp add: cardNumber_regex_def test_exactly)

lemma test_cvv: "regex_test cvv_regex v \<longleftrightarrow> length v = 3 \<and> list_all digit v"
  by (simp add: cvv_regex_def test_exactly)

lemma cardSchema_parse_eq:
  "cardSchema_parse n e v =
     (if length n = 16 \<and> list_all digit n then
        if is_MM_YY e then
          if length v = 3 \<and> list_all digit v then None
          else Some (ZodError [''CVV must be 3 digits''])
        else if length v = 3 \<and> list_all digit v then Some (ZodError [''Invalid expiry format (MM/YY)''])
        else Some (ZodError [''Invalid expiry format (MM/YY)'', ''CVV must be 3 digits''])
      else Some (ZodError (''Card number must be 16 digits'' #
        (if is_MM_YY e then [] else [''Invalid expiry format (MM/YY)'']) @
        (if length v = 3 \<and> list_all digit v then [] else [''CVV must be 3 digits'']))))"
  by (simp add: cardSchema_parse_def parse_result_def regex_issues_def test_cardNumber test_cvv
      test_expiry_MM_YY)

lemma upiSchema_parse_eq:
  "upiSchema_parse s =
     (if regex_test upi_regex s then None else Some (ZodError [''Invalid UPI ID format'']))"
  by (simp add: upiSchema_parse_def parse_result_def regex_issues_def)

lemma is_MM_YY_12_25: "is_MM_YY ''12/25''"
  by (simp add: is_MM_YY_def month_number_def digit_value_simps digit_def)

lemma not_is_MM_YY_13_25: "\<not> is_MM_YY ''13/25''"
  by (simp add: is_MM_YY_def month_number_def digit_value_simps digit_def)

lemma whitespace_encodings_eq:
  "whitespace_encodings =
     [[CHR 0x09], [CHR 0x0A], [CHR 0x0B], [CHR 0x0C], [CHR 0x0D], [CHR 0x20], [CHR 0xC2, CHR 0xA0],
      [CHR 0xE1, CHR 0x9A, CHR 0x80],
      [CHR 0xE2, CHR 0x80, CHR 0x80], [CHR 0xE2, CHR 0x80, CHR 0x81], [CHR 0xE2, CHR 0x80, CHR 0x82],
      [CHR 0xE2, CHR 0x80, CHR 0x83], [CHR 0xE2, CHR 0x80, CHR 0x84], [CHR 0xE2, CHR 0x80, CHR 0x85],
      [CHR 0xE2, CHR 0x80, CHR 0x86], [CHR 0xE2, CHR 0x80, CHR 0x87], [CHR 0xE2, CHR 0x80, CHR 0x88],
      [CHR 0xE2, CHR 0x80, CHR 0x89], [CHR 0xE2, CHR 0x80, CHR 0x8A],
      [CHR 0xE2, CHR 0x80, CHR 0xA8], [CHR 0xE2, CHR 0x80, CHR 0xA9], [CHR 0xE2, CHR 0x80, CHR 0xAF],
      [CHR 0xE2, CHR 0x81, CHR 0x9F], [CHR 0xE3, CHR 0x80, CHR 0x80], [CHR 0xEF, CHR 0xBB, CHR 0xBF]]"
  by (simp add: whitespace_encodings_def whitespace_code_points_def utf8_def char_of_eq_iff)

lemma remove_whitespace_front:
  assumes "w \<in> set whitespace_encodings"
  shows "remove_whitespace (w @ v) = remove_whitespace v"
  using assms unfolding whitespace_encodings_eq set_simps insert_iff empty_iff
  by (elim disjE FalseE; simp add: whitespace_encodings_eq)

lemma remove_whitespace_digit:
  assumes "digit d"
  shows "remove_whitespace (d # v) = d # remove_whitespace v"
  using assms unfolding digit_cases
  by (elim disjE; simp add: whitespace_encodings_eq)

lemma digit_not_whitespace: "digit d \<Longrightarrow> [d] \<notin> set whitespace_encodings"
  unfolding digit_cases by (elim disjE; simp add: whitespace_encodings_eq)

lemma remove_whitespace_pieces:
  "list_all (\<lambda>p. p \<in> set whitespace_encodings \<or> (\<exists>d. digit d \<and> p = [d])) ps \<Longrightarrow>
     remove_whitespace (concat ps) = concat (filter (\<lambda>p. p \<notin> set whitespace_encodings) ps)"
proof (induction ps)
  case Nil
  show ?case by simp
next
  case (Cons p ps)
  then have IH: "remove_whitespace (concat ps) =
      concat (filter (\<lambda>p. p \<notin> set whitespace_encodings) ps)"
    by simp
  from Cons.prems have "p \<in> set whitespace_encodings \<or> (\<exists>d. digit d \<and> p = [d])"
    by simp
  then show ?case
  proof
    assume "p \<in> set whitespace_encodings"
    then show ?thesis
      using IH by (simp add: remove_whitespace_front del: remove_whitespace.simps)
  next
    assume "\<exists>d. digit d \<and> p = [d]"
    then obtain d where "digit d" "p = [d]" by blast
    then show ?thesis
      using IH
      by (simp add: remove_whitespace_digit digit_not_whitespace del: remove_whitespace.simps)
  qed
qed

lemma utf8_examples:
  "utf8 0x20 = '' ''" "utf8 0x09 = [CHR 0x09]" "utf8 0xA0 = [CHR 0xC2, CHR 0xA0]"
  "utf8 0x2003 = [CHR 0xE2, CHR 0x80, CHR 0x83]" "utf8 0x3000 = [CHR 0xE3, CHR 0x80, CHR 0x80]"
  "utf8 0xFEFF = [CHR 0xEF, CHR 0xBB, CHR 0xBF]"
  by (simp_all add: utf8_def char_of_eq_iff)

lemma strip_spaces: "remove_whitespace ''1234 5678 1234 5678'' = ''1234567812345678''"
  by (simp add: whitespace_encodings_eq)

lemma strip_unicode:
  "remove_whitespace
     (utf8 0xFEFF @ ''1234'' @ utf8 0xA0 @ ''5678'' @ utf8 0x2003 @ ''1234'' @ utf8 0x3000 @ ''5678'' @
      utf8 0x09) = ''1234567812345678''"
  by (simp add: utf8_examples whitespace_encodings_eq)

text \<open>
  Claim C5. The card number is stored with its white space removed: every character of
  the class \<^verbatim>\<open>\s\<close> is dropped and every digit is kept, so a text written with digits and
  white space is stored as its digits. Card validation succeeds exactly when the stored
  card number is 16 digits, the expiry is \<^verbatim>\<open>MM/YY\<close> with a month from 01 to 12, and the CVV
  is 3 digits. When it fails, the message shown is that of the first rule violated, in the
  order card number, expiry, CVV. The three examples of the specification behave as it
  says, and a number typed in groups, with spaces or other white space, passes although
  the text as typed would not.
\<close>

theorem card_validation_rules:
  "(cardSchema_parse (cardNumber_onChange typed) e v = None \<longleftrightarrow>
      (length (cardNumber_onChange typed) = 16 \<and> list_all digit (cardNumber_onChange typed)) \<and>
      is_MM_YY e \<and> (length v = 3 \<and> list_all digit v)) \<and>
   Option.bind (cardSchema_parse (cardNumber_onChange typed) e v) onError =
     (if \<not> (length (cardNumber_onChange typed) = 16 \<and> list_all digit (cardNumber_onChange typed))
      then Some ''Card number must be 16 digits''
      else if \<not> is_MM_YY e then Some ''Invalid expiry format (MM/YY)''
      else if \<not> (length v = 3 \<and> list_all digit v) then Some ''CVV must be 3 digits''
      else None) \<and>
   (\<forall>w\<in>set whitespace_encodings. cardNumber_onChange (w @ typed) = cardNumber_onChange typed) \<and>
   (\<forall>d. digit d \<longrightarrow> cardNumber_onChange (d # typed) = d # cardNumber_onChange typed) \<and>
   (list_all (\<lambda>p. p \<in> set whitespace_encodings \<or> (\<exists>d. digit d \<and> p = [d])) ps \<longrightarrow>
      cardNumber_onChange (concat ps) = concat (filter (\<lambda>p. p \<notin> set whitespace_encodings) ps)) \<and>
   validate_payment (c\<lparr>paymentMethod := ''card''\<rparr>) = cardSchema_parse (cardNumber c) (expiry c) (cvv c) \<and>
   cardSchema_parse (cardNumber_onChange ''1234567812345678'') ''12/25'' ''123'' = None \<and>
   cardNumber_onChange ''1234 5678 1234 5678'' = ''1234567812345678'' \<and>
   cardNumber_onChange
     (utf8 0xFEFF @ ''1234'' @ utf8 0xA0 @ ''5678'' @ utf8 0x2003 @ ''1234'' @ utf8 0x3000 @ ''5678'' @
      utf8 0x09) = ''1234567812345678'' \<and>
   cardSchema_parse (cardNumber_onChange ''1234 5678 1234 5678'') ''12/25'' ''123'' = None \<and>
   Option.bind (cardSchema_parse ''1234 5678 1234 5678'' ''12/25'' ''123'') onError =
     Some ''Card number must be 16 digits'' \<and>
   Option.bind (cardSchema_parse (cardNumber_onChange ''123456781234567'') ''12/25'' ''123'') onError =
     Some ''Card number must be 16 digits'' \<and>
   Option.bind (cardSchema_parse (cardNumber_onChange ''1234567812345678'') ''13/25'' ''123'') onError =
     Some ''Invalid expiry format (MM/YY)''"
proof -
  have ex1: "cardNumber_onChange ''1234567812345678'' = ''1234567812345678''"
    and ex3: "cardNumber_onChange ''123456781234567'' = ''123456781234567''"
    by (simp_all add: cardNumber_onChange_def whitespace_encodings_eq)
  have ex2: "cardNumber_onChange ''1234 5678 1234 5678'' = ''1234567812345678''"
    by (simp only: cardNumber_onChange_def strip_spaces)
  have ex4: "cardNumber_onChange
     (utf8 0xFEFF @ ''1234'' @ utf8 0xA0 @ ''5678'' @ utf8 0x2003 @ ''1234'' @ utf8 0x3000 @ ''5678'' @
      utf8 0x09) = ''1234567812345678''"
    by (simp only: cardNumber_onChange_def strip_unicode)
  have front: "\<forall>w\<in>set whitespace_encodings. cardNumber_onChange (w @ typed) = cardNumber_onChange typed"
    by (simp add: cardNumber_onChange_def remove_whitespace_front del: remove_whitespace.simps)
  have keep: "\<forall>d. digit d \<longrightarrow> cardNumber_onChange (d # typed) = d # cardNumber_onChange typed"
    by (simp add: cardNumber_onChange_def remove_whitespace_digit del: remove_whitespace.simps)
  have pieces: "list_all (\<lambda>p. p \<in> set whitespace_encodings \<or> (\<exists>d. digit d \<and> p = [d])) ps \<longrightarrow>
      cardNumber_onChange (concat ps) = concat (filter (\<lambda>p. p \<notin> set whitespace_encodings) ps)"
    unfolding cardNumber_onChange_def using remove_whitespace_pieces [of ps] by blast
  have vp: "validate_payment (c\<lparr>paymentMethod := ''card''\<rparr>) =
      cardSchema_parse (cardNumber c) (expiry c) (cvv c)"
    by (simp add: validate_payment_def)
  have iff: "\<And>n e v. cardSchema_parse n e v = None \<longleftrightarrow>
      (length n = 16 \<and> list_all digit n) \<and> is_MM_YY e \<and> (length v = 3 \<and> list_all digit v)"
    by (auto simp: cardSchema_parse_eq)
  have msg: "\<And>n e v. Option.bind (cardSchema_parse n e v) onError =
     (if \<not> (length n = 16 \<and> list_all digit n) then Some ''Card number must be 16 digits''
      else if \<not> is_MM_YY e then Some ''Invalid expiry format (MM/YY)''
      else if \<not> (length v = 3 \<and> list_all digit v) then Some ''CVV must be 3 digits''
      else None)"
    by (auto simp: cardSchema_parse_eq)
  have p1: "cardSchema_parse ''1234567812345678'' ''12/25'' ''123'' = None"
    by (simp add: iff digit_def is_MM_YY_12_25)
  have p2: "Option.bind (cardSchema_parse ''123456781234567'' ''12/25'' ''123'') onError =
     Some ''Card number must be 16 digits''"
    by (simp add: msg digit_def)
  have p3: "Option.bind (cardSchema_parse ''1234567812345678'' ''13/25'' ''123'') onError =
     Some ''Invalid expiry format (MM/YY)''"
    by (simp add: msg digit_def not_is_MM_YY_13_25)
  have p4: "Option.bind (cardSchema_parse ''1234 5678 1234 5678'' ''12/25'' ''123'') onError =
     Some ''Card number must be 16 digits''"
    by (simp add: msg)
  show ?thesis
    unfolding ex1 ex2 ex3 ex4
    using iff [of "cardNumber_onChange typed" e v] msg [of "cardNumber_onChange typed" e v]
      front keep pieces vp p1 p2 p3 p4
    by blast
qed

theorem card_validation_rules_witness:
  "cardSchema_parse (cardNumber_onChange ''4111 1111 1111 1111'') ''01/30'' ''999'' = None \<and>
   cardNumber_onChange (concat [''4'', utf8 0xA0, ''1'', '' '', ''7'']) = ''417''"
proof -
  let ?ps = "[''4'', utf8 0xA0, ''1'', '' '', ''7'']"
  have n: "cardNumber_onChange ''4111 1111 1111 1111'' = ''4111111111111111''"
    by (simp add: cardNumber_onChange_def whitespace_encodings_eq)
  have e: "is_MM_YY ''01/30''"
    by (simp add: is_MM_YY_def month_number_def digit_value_simps digit_def)
  from card_validation_rules [of "''4111 1111 1111 1111''" "''01/30''" "''999''"]
  have "cardSchema_parse (cardNumber_onChange ''4111 1111 1111 1111'') ''01/30'' ''999'' = None \<longleftrightarrow>
      (length (cardNumber_onChange ''4111 1111 1111 1111'') = 16 \<and>
       list_all digit (cardNumber_onChange ''4111 1111 1111 1111'')) \<and>
      is_MM_YY ''01/30'' \<and> (length ''999'' = 3 \<and> list_all digit ''999'')"
    by (rule conjunct1)
  then have 1: "cardSchema_parse (cardNumber_onChange ''4111 1111 1111 1111'') ''01/30'' ''999'' = None"
    by (simp add: n e digit_def)
  have pieces: "list_all (\<lambda>p. p \<in> set whitespace_encodings \<or> (\<exists>d. digit d \<and> p = [d])) ?ps"
    by (simp add: utf8_examples whitespace_encodings_eq digit_def)
  have kept: "concat (filter (\<lambda>p. p \<notin> set whitespace_encodings) ?ps) = ''417''"
    by (simp add: utf8_examples whitespace_encodings_eq)
  note T = card_validation_rules [of "[]" "[]" "[]" ?ps]
  note P = T [THEN conjunct2, THEN conjunct2, THEN conjunct2, THEN conjunct2, THEN conjunct1,
      rule_format, OF pieces]
  from P kept have 2: "cardNumber_onChange (concat ?ps) = ''417''"
    by (simp only:)
  from 1 2 show ?thesis ..
qed

text \<open>
  Claim C6. UPI validation succeeds exactly when the handle is a non-empty local part, an
  \<^verbatim>\<open>@\<close>, and a non-empty domain part, both parts made of word characters, dots and hyphens
  only; otherwise it fails and the message shown is "Invalid UPI ID format". The handle
  \<^verbatim>\<open>user@bank\<close> passes; \<^verbatim>\<open>user\<close> and \<^verbatim>\<open>user@\<close> fail.
\<close>

theorem upi_validation_rule:
  "upiSchema_parse s =
     (if \<exists>a b. s = a @ ''@'' @ b \<and> a \<noteq> [] \<and> list_all upi_char a \<and> b \<noteq> [] \<and> list_all upi_char b
      then None else Some (ZodError [''Invalid UPI ID format''])) \<and>
   onError (ZodError [''Invalid UPI ID format'']) = Some ''Invalid UPI ID format'' \<and>
   validate_payment (c\<lparr>paymentMethod := ''upi''\<rparr>) = upiSchema_parse (upiId c) \<and>
   upiSchema_parse ''user@bank'' = None \<and>
   upiSchema_parse ''user'' = Some (ZodError [''Invalid UPI ID format'']) \<and>
   upiSchema_parse ''user@'' = Some (ZodError [''Invalid UPI ID format''])"
proof -
  have ex: "regex_test upi_regex ''user@bank''" "\<not> regex_test upi_regex ''user''"
    "\<not> regex_test upi_regex ''user@''"
    by (simp_all add: upi_regex_def plus_pat_def lit_def upi_char_def word_char_def)
  have gen: "upiSchema_parse s =
     (if \<exists>a b. s = a @ ''@'' @ b \<and> a \<noteq> [] \<and> list_all upi_char a \<and> b \<noteq> [] \<and> list_all upi_char b
      then None else Some (ZodError [''Invalid UPI ID format'']))"
    unfolding upiSchema_parse_eq test_upi ..
  have vp: "validate_payment (c\<lparr>paymentMethod := ''upi''\<rparr>) = upiSchema_parse (upiId c)"
    by (simp add: validate_payment_def)
  have toast: "onError (ZodError [''Invalid UPI ID format'']) = Some ''Invalid UPI ID format''"
    by simp
  have exs: "upiSchema_parse ''user@bank'' = None"
    "upiSchema_parse ''user'' = Some (ZodError [''Invalid UPI ID format''])"
    "upiSchema_parse ''user@'' = Some (ZodError [''Invalid UPI ID format''])"
    by (simp_all only: upiSchema_parse_eq ex if_True if_False)
  from gen vp toast exs show ?thesis by blast
qed

theorem upi_validation_rule_witness:
  "upiSchema_parse ''a.b-c@ok_1'' = None"
proof -
  have "''a.b-c@ok_1'' = ''a.b-c'' @ ''@'' @ ''ok_1'' \<and> ''a.b-c'' \<noteq> [] \<and>
      list_all upi_char ''a.b-c'' \<and> ''ok_1'' \<noteq> [] \<and> list_all upi_char ''ok_1''"
    by (simp add: upi_char_def word_char_def)
  then have "\<exists>a b. ''a.b-c@ok_1'' = a @ ''@'' @ b \<and> a \<noteq> [] \<and> list_all upi_char a \<and>
      b \<noteq> [] \<and> list_all upi_char b"
    by blast
  with upi_validation_rule [of "''a.b-c@ok_1''" sample_checkout] show ?thesis
    by (simp only: if_True)
qed

section \<open>The mutation, case by case\<close>

lemma page_shown_D:
  "page_shown usr st cartItems \<Longrightarrow> (\<exists>uid. usr = Some uid) \<and> itemsForPayment st cartItems \<noteq> []"
  by (auto simp: page_shown_def itemsForPayment_def split: if_splits option.splits)

lemma createOrder_checks:
  assumes "user c = Some uid" and "items c \<noteq> []"
  shows "createOrder N c b s =
     (if address c = [] then (Inl (Error ''Please enter your address''), s)
      else if phone c = [] then (Inl (Error ''Please enter your phone number''), s)
      else (case validate_payment c of Some e \<Rightarrow> (Inl e, s) | None \<Rightarrow> place N uid c b s))"
  using assms by (simp add: createOrder_def)

lemma createOrder_place:
  assumes "user c = Some uid" and "items c \<noteq> []" and "address c \<noteq> []" and "phone c \<noteq> []"
    and "validate_payment c = None"
  shows "createOrder N c b s = place N uid c b s"
  using assms by (simp add: createOrder_def)

lemma createOrder_rejects:
  "user c = None \<or> items c = [] \<or> address c = [] \<or> phone c = [] \<or> validate_payment c \<noteq> None
     \<Longrightarrow> snd (createOrder N c b s) = s \<and> isl (fst (createOrder N c b s))"
  by (auto simp: createOrder_def split: option.splits)

lemma order_id_new_order: "order_id (new_order N uid c b) = new_order_id b"
  by (simp add: new_order_def)

lemma place_header_fails:
  "orderError b = Some e \<Longrightarrow> place N uid c b s = (Inl (PostgrestError e), request InsertOrder s)"
  by (simp add: place_def Let_def)

lemma place_catalog_fails:
  "orderError b = None \<Longrightarrow> prodErr b = Some e \<Longrightarrow>
     place N uid c b s =
       (Inl (PostgrestError e),
        s\<lparr>orders := orders s @ [new_order N uid c b], calls := calls s @ [InsertOrder, SelectProductIds]\<rparr>)"
  by (simp add: place_def Let_def request_def)

lemma place_no_lines:
  "orderError b = None \<Longrightarrow> prodErr b = None \<Longrightarrow>
   orderItems N (new_order_id b) (map row_id (products_table s)) (items c) = [] \<Longrightarrow>
     place N uid c b s =
       (Inl (Error ''No valid products found for this order''),
        s\<lparr>orders := orders s @ [new_order N uid c b], calls := calls s @ [InsertOrder, SelectProductIds]\<rparr>)"
  by (simp add: place_def Let_def request_def order_id_new_order)

lemma place_lines_fail:
  "orderError b = None \<Longrightarrow> prodErr b = None \<Longrightarrow>
   orderItems N (new_order_id b) (map row_id (products_table s)) (items c) \<noteq> [] \<Longrightarrow>
   itemsError b = Some e \<Longrightarrow>
     place N uid c b s =
       (Inl (PostgrestError e),
        s\<lparr>orders := orders s @ [new_order N uid c b],
          calls := calls s @ [InsertOrder, SelectProductIds, InsertOrderItems]\<rparr>)"
  by (simp add: place_def Let_def request_def order_id_new_order)

lemma place_clear_fails:
  "orderError b = None \<Longrightarrow> prodErr b = None \<Longrightarrow>
   orderItems N (new_order_id b) (map row_id (products_table s)) (items c) \<noteq> [] \<Longrightarrow>
   itemsError b = None \<Longrightarrow> \<not> isBuyNow c \<Longrightarrow> clearError b = Some e \<Longrightarrow>
     place N uid c b s =
       (Inl (PostgrestError e),
        s\<lparr>orders := orders s @ [new_order N uid c b],
          order_items := order_items s @
            orderItems N (new_order_id b) (map row_id (products_table s)) (items c),
          calls := calls s @ [InsertOrder, SelectProductIds, InsertOrderItems, DeleteCartItems]\<rparr>)"
  by (simp add: place_def Let_def request_def order_id_new_order)

lemma place_cart_done:
  "orderError b = None \<Longrightarrow> prodErr b = None \<Longrightarrow>
   orderItems N (new_order_id b) (map row_id (products_table s)) (items c) \<noteq> [] \<Longrightarrow>
   itemsError b = None \<Longrightarrow> \<not> isBuyNow c \<Longrightarrow> clearError b = None \<Longrightarrow>
     place N uid c b s =
       (Inr (new_order N uid c b),
        s\<lparr>orders := orders s @ [new_order N uid c b],
          order_items := order_items s @
            orderItems N (new_order_id b) (map row_id (products_table s)) (items c),
          cart_items := filter (\<lambda>row. fst row \<noteq> uid) (cart_items s),
          calls := calls s @ [InsertOrder, SelectProductIds, InsertOrderItems, DeleteCartItems]\<rparr>)"
  by (simp add: place_def Let_def request_def order_id_new_order)

lemma place_buy_now_done:
  "orderError b = None \<Longrightarrow> prodErr b = None \<Longrightarrow>
   orderItems N (new_order_id b) (map row_id (products_table s)) (items c) \<noteq> [] \<Longrightarrow>
   itemsError b = None \<Longrightarrow> isBuyNow c \<Longrightarrow>
     place N uid c b s =
       (Inr (new_order N uid c b),
        s\<lparr>orders := orders s @ [new_order N uid c b],
          order_items := order_items s @
            orderItems N (new_order_id b) (map row_id (products_table s)) (items c),
          calls := calls s @ [InsertOrder, SelectProductIds, InsertOrderItems]\<rparr>)"
  by (simp add: place_def Let_def request_def order_id_new_order)

lemma place_calls_prefix:
  "\<exists>n. calls (snd (place N uid c b s)) =
     calls s @ take n [InsertOrder, SelectProductIds, InsertOrderItems, DeleteCartItems]"
proof -
  let ?all = "[InsertOrder, SelectProductIds, InsertOrderItems, DeleteCartItems]"
  consider e where "orderError b = Some e"
    | e where "orderError b = None" "prodErr b = Some e"
    | "orderError b = None" "prodErr b = None"
      "orderItems N (new_order_id b) (map row_id (products_table s)) (items c) = []"
    | e where "orderError b = None" "prodErr b = None"
      "orderItems N (new_order_id b) (map row_id (products_table s)) (items c) \<noteq> []"
      "itemsError b = Some e"
    | "orderError b = None" "prodErr b = None"
      "orderItems N (new_order_id b) (map row_id (products_table s)) (items c) \<noteq> []"
      "itemsError b = None" "isBuyNow c"
    | e where "orderError b = None" "prodErr b = None"
      "orderItems N (new_order_id b) (map row_id (products_table s)) (items c) \<noteq> []"
      "itemsError b = None" "\<not> isBuyNow c" "clearError b = Some e"
    | "orderError b = None" "prodErr b = None"
      "orderItems N (new_order_id b) (map row_id (products_table s)) (items c) \<noteq> []"
      "itemsError b = None" "\<not> isBuyNow c" "clearError b = None"
    by (cases "orderError b"; cases "prodErr b"; cases "itemsError b"; cases "clearError b") auto
  then show ?thesis
  proof cases
    case 1
    then have "calls (snd (place N uid c b s)) = calls s @ take 1 ?all"
      by (simp add: place_header_fails request_def)
    then show ?thesis ..
  next
    case 2
    then have "calls (snd (place N uid c b s)) = calls s @ take 2 ?all"
      by (simp add: place_catalog_fails)
    then show ?thesis ..
  next
    case 3
    then have "calls (snd (place N uid c b s)) = calls s @ take 2 ?all"
      by (simp add: place_no_lines)
    then show ?thesis ..
  next
    case 4
    then have "calls (snd (place N uid c b s)) = calls s @ take 3 ?all"
      by (simp add: place_lines_fail)
    then show ?thesis ..
  next
    case 5
    then have "calls (snd (place N uid c b s)) = calls s @ take 3 ?all"
      by (simp add: place_buy_now_done)
    then show ?thesis ..
  next
    case 6
    then have "calls (snd (place N uid c b s)) = calls s @ take 4 ?all"
      by (simp add: place_clear_fails)
    then show ?thesis ..
  next
    case 7
    then have "calls (snd (place N uid c b s)) = calls s @ take 4 ?all"
      by (simp add: place_cart_done)
    then show ?thesis ..
  qed
qed

section \<open>Reconciliation against the catalogue\<close>

lemma orderItems_eq:
  "orderItems N oid valid its =
     map (\<lambda>it. \<lparr>oi_order_id = oid, oi_product_id = prodId it, oi_quantity = quantity it,
                 oi_price = unit_price N it\<rparr>)
       (filter (\<lambda>it. prodId it \<in> set valid) its)"
  by (induction its) (simp_all add: orderItems_def order_line_def)

lemma orderItems_Nil: "orderItems N oid valid its = [] \<longleftrightarrow> (\<forall>it\<in>set its. prodId it \<notin> set valid)"
  by (simp add: orderItems_eq filter_empty_conv)

section \<open>The sample data\<close>

lemma sample_validates: "validate_payment sample_checkout = None"
  by (simp add: validate_payment_def sample_checkout_def)

lemma sample_lines:
  "orderItems integer_ops ''o1'' [Val ''p1''] [sample_item] =
     [\<lparr>oi_order_id = ''o1'', oi_product_id = Val ''p1'', oi_quantity = Val 2, oi_price = 100\<rparr>]"
  by (simp add: orderItems_def order_line_def prodId_def or_str_def unit_price_def or_num_def integer_ops_def
      sample_item_def)

lemma sample_no_lines: "\<forall>it\<in>set (items sample_checkout).
    prodId it \<notin> set (map row_id (products_table (sample_store [''p2''])))"
  by (simp add: sample_checkout_def sample_store_def sample_item_def prodId_def or_str_def)

section \<open>Validation comes before persistence\<close>

text \<open>
  Claim C4. On a page that is shown (a signed-in user with something to pay for), an
  empty address fails first, with "Please enter your address"; otherwise an empty phone
  fails with "Please enter your phone number"; otherwise the payment-method fields are
  validated. A failure of any of these checks leaves the store as it was, with no
  request issued: a request is only issued once all of them have passed.
\<close>

theorem validation_before_persistence:
  assumes "page_shown (user c) st cartItems" and "items c = itemsForPayment st cartItems"
  shows "(address c = [] \<longrightarrow>
            createOrder N c b s = (Inl (Error ''Please enter your address''), s)) \<and>
         (address c \<noteq> [] \<and> phone c = [] \<longrightarrow>
            createOrder N c b s = (Inl (Error ''Please enter your phone number''), s)) \<and>
         (address c \<noteq> [] \<and> phone c \<noteq> [] \<longrightarrow>
            (\<forall>e. validate_payment c = Some e \<longrightarrow> createOrder N c b s = (Inl e, s))) \<and>
         (calls (snd (createOrder N c b s)) \<noteq> calls s \<or> snd (createOrder N c b s) \<noteq> s \<longrightarrow>
            address c \<noteq> [] \<and> phone c \<noteq> [] \<and> validate_payment c = None)"
proof -
  from assms obtain uid where u: "user c = Some uid" and i: "items c \<noteq> []"
    using page_shown_D [of "user c" st cartItems] by auto
  have rej: "address c = [] \<or> phone c = [] \<or> validate_payment c \<noteq> None
      \<Longrightarrow> snd (createOrder N c b s) = s"
    using createOrder_rejects [of c N b s] by blast
  have "address c = [] \<longrightarrow> createOrder N c b s = (Inl (Error ''Please enter your address''), s)"
    by (simp add: createOrder_checks [OF u i])
  moreover have "address c \<noteq> [] \<and> phone c = [] \<longrightarrow>
      createOrder N c b s = (Inl (Error ''Please enter your phone number''), s)"
    by (simp add: createOrder_checks [OF u i])
  moreover have "address c \<noteq> [] \<and> phone c \<noteq> [] \<longrightarrow>
      (\<forall>e. validate_payment c = Some e \<longrightarrow> createOrder N c b s = (Inl e, s))"
    by (simp add: createOrder_checks [OF u i])
  moreover have "calls (snd (createOrder N c b s)) \<noteq> calls s \<or> snd (createOrder N c b s) \<noteq> s \<longrightarrow>
      address c \<noteq> [] \<and> phone c \<noteq> [] \<and> validate_payment c = None"
    using rej by metis
  ultimately show ?thesis by blast
qed

theorem validation_before_persistence_witness:
  "createOrder integer_ops (sample_checkout\<lparr>address := []\<rparr>) all_ok (sample_store [''p1'']) =
     (Inl (Error ''Please enter your address''), sample_store [''p1''])"
proof -
  let ?st = "\<lparr>buyNow = False, product = sample_item, state_quantity = Undefined\<rparr>"
  have shown: "page_shown (user (sample_checkout\<lparr>address := []\<rparr>)) ?st (Some [sample_item])"
    by (simp add: page_shown_def sample_checkout_def)
  have its: "items (sample_checkout\<lparr>address := []\<rparr>) = itemsForPayment ?st (Some [sample_item])"
    by (simp add: itemsForPayment_def sample_checkout_def)
  from validation_before_persistence [OF shown its, of integer_ops all_ok "sample_store [''p1'']"]
  show ?thesis by simp
qed




section \<open>The order of the persistence steps\<close>

text \<open>
  Claim C9. After validation has passed, the requests are issued in the fixed order
  insert header, read catalogue, insert lines, delete cart, each only after the one
  before has succeeded. If the header insert fails, nothing else is attempted and nothing
  is stored. If the line insert fails, the storage error is thrown and the header stays
  stored. The cart delete is issued only in the cart flow and only after the lines are
  stored; if it fails, the error is thrown and the header and its lines stay stored.
  The message of a storage error is what the toast shows.
\<close>

theorem persistence_steps_in_order:
  assumes "user c = Some uid" and "items c \<noteq> []" and "address c \<noteq> []" and "phone c \<noteq> []"
    and "validate_payment c = None"
  shows
    "(let r = createOrder N c b s;
          hdr = new_order N uid c b;
          lines = orderItems N (new_order_id b) (map row_id (products_table s)) (items c);
          issued = drop (length (calls s)) (calls (snd r))
      in
        (\<exists>n. calls (snd r) =
           calls s @ take n [InsertOrder, SelectProductIds, InsertOrderItems, DeleteCartItems]) \<and>
        (\<forall>e. orderError b = Some e \<longrightarrow>
           fst r = Inl (PostgrestError e) \<and> issued = [InsertOrder] \<and> orders (snd r) = orders s \<and>
           order_items (snd r) = order_items s \<and> cart_items (snd r) = cart_items s) \<and>
        (\<forall>e. orderError b = None \<and> prodErr b = Some e \<longrightarrow>
           fst r = Inl (PostgrestError e) \<and> issued = [InsertOrder, SelectProductIds] \<and>
           orders (snd r) = orders s @ [hdr] \<and> order_items (snd r) = order_items s \<and>
           cart_items (snd r) = cart_items s) \<and>
        (\<forall>e. orderError b = None \<and> prodErr b = None \<and> lines \<noteq> [] \<and> itemsError b = Some e \<longrightarrow>
           fst r = Inl (PostgrestError e) \<and>
           issued = [InsertOrder, SelectProductIds, InsertOrderItems] \<and>
           orders (snd r) = orders s @ [hdr] \<and> order_items (snd r) = order_items s \<and>
           cart_items (snd r) = cart_items s) \<and>
        (\<forall>e. orderError b = None \<and> prodErr b = None \<and> lines \<noteq> [] \<and> itemsError b = None \<and>
             \<not> isBuyNow c \<and> clearError b = Some e \<longrightarrow>
           fst r = Inl (PostgrestError e) \<and>
           issued = [InsertOrder, SelectProductIds, InsertOrderItems, DeleteCartItems] \<and>
           orders (snd r) = orders s @ [hdr] \<and> order_items (snd r) = order_items s @ lines \<and>
           cart_items (snd r) = cart_items s) \<and>
        (orderError b = None \<and> prodErr b = None \<and> lines \<noteq> [] \<and> itemsError b = None \<and>
             \<not> isBuyNow c \<and> clearError b = None \<longrightarrow>
           fst r = Inr hdr \<and>
           issued = [InsertOrder, SelectProductIds, InsertOrderItems, DeleteCartItems] \<and>
           orders (snd r) = orders s @ [hdr] \<and> order_items (snd r) = order_items s @ lines \<and>
           cart_items (snd r) = filter (\<lambda>row. fst row \<noteq> uid) (cart_items s)) \<and>
        (orderError b = None \<and> prodErr b = None \<and> lines \<noteq> [] \<and> itemsError b = None \<and>
             isBuyNow c \<longrightarrow>
           fst r = Inr hdr \<and> issued = [InsertOrder, SelectProductIds, InsertOrderItems] \<and>
           orders (snd r) = orders s @ [hdr] \<and> order_items (snd r) = order_items s @ lines \<and>
           cart_items (snd r) = cart_items s) \<and>
        (DeleteCartItems \<in> set issued \<longrightarrow>
           \<not> isBuyNow c \<and> lines \<noteq> [] \<and> order_items (snd r) = order_items s @ lines) \<and>
        (\<forall>e. e \<noteq> [] \<longrightarrow> onError (PostgrestError e) = Some e))"
proof -
  let ?lines = "orderItems N (new_order_id b) (map row_id (products_table s)) (items c)"
  have r: "createOrder N c b s = place N uid c b s"
    using assms by (rule createOrder_place)
  have del: "DeleteCartItems \<in> set (drop (length (calls s)) (calls (snd (place N uid c b s)))) \<longrightarrow>
      \<not> isBuyNow c \<and> ?lines \<noteq> [] \<and> order_items (snd (place N uid c b s)) = order_items s @ ?lines"
    by (simp add: place_def Let_def request_def order_id_new_order split: option.splits)
  show ?thesis
    unfolding Let_def r
    apply (intro conjI allI impI)
                        apply (rule place_calls_prefix)
                        apply (simp_all add: place_header_fails place_catalog_fails place_lines_fail
        place_clear_fails place_cart_done place_buy_now_done request_def)
    using del apply simp_all
    done
qed

theorem persistence_steps_in_order_witness:
  "fst (createOrder integer_ops sample_checkout (all_ok\<lparr>itemsError := Some ''timeout''\<rparr>) (sample_store [''p1''])) =
     Inl (PostgrestError ''timeout'') \<and>
   map order_id
     (orders (snd (createOrder integer_ops sample_checkout (all_ok\<lparr>itemsError := Some ''timeout''\<rparr>)
        (sample_store [''p1''])))) = [''o1''] \<and>
   order_items (snd (createOrder integer_ops sample_checkout (all_ok\<lparr>itemsError := Some ''timeout''\<rparr>)
     (sample_store [''p1'']))) = []"
proof -
  let ?b = "all_ok\<lparr>itemsError := Some ''timeout''\<rparr>"
  let ?s = "sample_store [''p1'']"
  have pre: "user sample_checkout = Some ''u1''" "items sample_checkout \<noteq> []"
    "address sample_checkout \<noteq> []" "phone sample_checkout \<noteq> []"
    by (simp_all add: sample_checkout_def)
  have b: "orderError ?b = None" "prodErr ?b = None" "itemsError ?b = Some ''timeout''"
    "new_order_id ?b = ''o1''"
    by (simp_all add: all_ok_def)
  have lines: "orderItems integer_ops (new_order_id ?b) (map row_id (products_table ?s)) (items sample_checkout) \<noteq> []"
    by (simp add: b sample_store_def sample_checkout_def sample_lines)
  have s: "orders ?s = []" "order_items ?s = []"
    by (simp_all add: sample_store_def)
  from persistence_steps_in_order [OF pre sample_validates, of integer_ops ?b ?s] b lines
  have "fst (createOrder integer_ops sample_checkout ?b ?s) = Inl (PostgrestError ''timeout'') \<and>
     orders (snd (createOrder integer_ops sample_checkout ?b ?s)) = orders ?s @ [new_order integer_ops ''u1'' sample_checkout ?b] \<and>
     order_items (snd (createOrder integer_ops sample_checkout ?b ?s)) = order_items ?s"
    unfolding Let_def by blast
  then show ?thesis
    by (simp add: s order_id_new_order b)
qed

section \<open>When no item is in the catalogue\<close>

text \<open>
  Claim C1, as the code has it. When validation has passed, the header insert and the
  catalogue read succeed, and no item's product is in the catalogue, the attempt fails
  with "No valid products found for this order"; no order line is stored and the cart is
  untouched, but the order header inserted before the catalogue check stays stored.
\<close>

theorem no_valid_products_leaves_header:
  assumes "user c = Some uid" and "items c \<noteq> []" and "address c \<noteq> []" and "phone c \<noteq> []"
    and "validate_payment c = None" and "orderError b = None" and "prodErr b = None"
    and "\<forall>it\<in>set (items c). prodId it \<notin> set (map row_id (products_table s))"
  shows "createOrder N c b s =
           (Inl (Error ''No valid products found for this order''),
            s\<lparr>orders := orders s @ [new_order N uid c b],
              calls := calls s @ [InsertOrder, SelectProductIds]\<rparr>) \<and>
         onError (Error ''No valid products found for this order'') =
           Some ''No valid products found for this order'' \<and>
         order_items (snd (createOrder N c b s)) = order_items s \<and>
         cart_items (snd (createOrder N c b s)) = cart_items s"
proof -
  have "orderItems N (new_order_id b) (map row_id (products_table s)) (items c) = []"
    using assms(8) by (simp only: orderItems_Nil)
  then have "place N uid c b s =
      (Inl (Error ''No valid products found for this order''),
       s\<lparr>orders := orders s @ [new_order N uid c b],
         calls := calls s @ [InsertOrder, SelectProductIds]\<rparr>)"
    using assms(6,7) by (simp add: place_no_lines)
  then show ?thesis
    by (simp add: createOrder_place [OF assms(1-5)])
qed

theorem no_valid_products_leaves_header_witness:
  "createOrder integer_ops sample_checkout all_ok (sample_store [''p2'']) =
     (Inl (Error ''No valid products found for this order''),
      (sample_store [''p2''])\<lparr>orders := [new_order integer_ops ''u1'' sample_checkout all_ok],
        calls := [InsertOrder, SelectProductIds]\<rparr>)"
proof -
  have pre: "user sample_checkout = Some ''u1''" "items sample_checkout \<noteq> []"
    "address sample_checkout \<noteq> []" "phone sample_checkout \<noteq> []"
    by (simp_all add: sample_checkout_def)
  have b: "orderError all_ok = None" "prodErr all_ok = None"
    by (simp_all add: all_ok_def)
  from no_valid_products_leaves_header [OF pre sample_validates b sample_no_lines]
  show ?thesis by (simp add: sample_store_def)
qed

text \<open>
  The claim C1 as stated fails: with the sample cart row for product \<^verbatim>\<open>p1\<close> and a
  catalogue that only holds \<^verbatim>\<open>p2\<close>, every item is discarded and the attempt fails with the
  message, yet the store, which had no order, now holds the order \<^verbatim>\<open>o1\<close> with no lines.
\<close>

theorem dangling_order_counterexample:
  "orderItems integer_ops ''o1'' (map row_id (products_table (sample_store [''p2'']))) (items sample_checkout) = [] \<and>
   fst (createOrder integer_ops sample_checkout all_ok (sample_store [''p2''])) =
     Inl (Error ''No valid products found for this order'') \<and>
   orders (sample_store [''p2'']) = [] \<and>
   map order_id (orders (snd (createOrder integer_ops sample_checkout all_ok (sample_store [''p2''])))) = [''o1''] \<and>
   order_items (snd (createOrder integer_ops sample_checkout all_ok (sample_store [''p2'']))) = []"
proof -
  have pre: "user sample_checkout = Some ''u1''" "items sample_checkout \<noteq> []"
    "address sample_checkout \<noteq> []" "phone sample_checkout \<noteq> []"
    by (simp_all add: sample_checkout_def)
  have b: "orderError all_ok = None" "prodErr all_ok = None" "new_order_id all_ok = ''o1''"
    by (simp_all add: all_ok_def)
  have none: "orderItems integer_ops (new_order_id all_ok) (map row_id (products_table (sample_store [''p2''])))
      (items sample_checkout) = []"
    using sample_no_lines by (simp only: orderItems_Nil)
  have "createOrder integer_ops sample_checkout all_ok (sample_store [''p2'']) =
      place integer_ops ''u1'' sample_checkout all_ok (sample_store [''p2''])"
    using pre sample_validates by (rule createOrder_place)
  also have "\<dots> = (Inl (Error ''No valid products found for this order''),
      (sample_store [''p2''])\<lparr>orders := orders (sample_store [''p2'']) @ [new_order integer_ops ''u1'' sample_checkout all_ok],
        calls := calls (sample_store [''p2'']) @ [InsertOrder, SelectProductIds]\<rparr>)"
    using b(1,2) none by (rule place_no_lines)
  finally show ?thesis
    using none by (simp add: b order_id_new_order sample_store_def)
qed

section \<open>The total of an order\<close>

lemma foldl_total_step:
  "foldl (total_step N) a its =
     foldl (num_add N) a
       (map (\<lambda>it. num_mul N (unit_price N it) (num_of_int N (or_lit (quantity it) 1))) its)"
  by (induction its arbitrary: a) (simp_all add: total_step_def)

lemma total_running_sum:
  "total N its =
     foldl (num_add N) (num_of_int N 0)
       (map (\<lambda>it. num_mul N (unit_price N it) (num_of_int N (or_lit (quantity it) 1))) its)"
  by (simp add: total_def foldl_total_step)

lemma products_numeric_quantities:
  "map quantity its = map Val qs \<Longrightarrow> 0 \<notin> set qs \<Longrightarrow>
     map (\<lambda>it. num_mul N (unit_price N it) (num_of_int N (or_lit (quantity it) 1))) its =
     map (\<lambda>(it, q). num_mul N (unit_price N it) (num_of_int N q)) (zip its qs)"
proof (induction its arbitrary: qs)
  case Nil
  then show ?case by simp
next
  case (Cons it its)
  then obtain q qs' where qs: "qs = q # qs'" by (cases qs) auto
  with Cons.prems have "quantity it = Val q" "q \<noteq> 0" "map quantity its = map Val qs'" "0 \<notin> set qs'"
    by auto
  with Cons.IH [of qs'] qs show ?case by simp
qed

lemma orders_after_createOrder:
  "orders (snd (createOrder N c b s)) = orders s \<or>
   (\<exists>ord. orders (snd (createOrder N c b s)) = orders s @ [ord] \<and> total_amount ord = total N (items c))"
proof -
  have hdr: "\<And>uid. total_amount (new_order N uid c b) = total N (items c)"
    by (simp add: new_order_def)
  have "\<And>uid. orders (snd (place N uid c b s)) = orders s \<or>
      orders (snd (place N uid c b s)) = orders s @ [new_order N uid c b]"
    by (simp add: place_def Let_def request_def split: option.splits)
  with hdr have "\<And>uid. orders (snd (place N uid c b s)) = orders s \<or>
      (\<exists>ord. orders (snd (place N uid c b s)) = orders s @ [ord] \<and> total_amount ord = total N (items c))"
    by blast
  then show ?thesis
    by (simp add: createOrder_def split: option.splits)
qed

text \<open>
  Claim C2, as the code has it. The total is the sum, accumulated from 0 in the order of
  the list and in the arithmetic of JavaScript numbers, over all items before
  reconciliation, of unit price times quantity, where a quantity that is missing, null or
  zero counts as 1; when every quantity is a number other than zero this is the sum of
  unit price times quantity. The header that \<open>createOrder\<close> stores carries this total
  whatever the catalogue holds. For two items with price 100, quantity 2 and price 50,
  quantity 1 the total is (0 + 100 * 2) + 50 * 1, which is 250.
\<close>

theorem total_is_pre_reconciliation_sum:
  "total N its =
     foldl (num_add N) (num_of_int N 0)
       (map (\<lambda>it. num_mul N (unit_price N it) (num_of_int N (or_lit (quantity it) 1))) its) \<and>
   (map quantity its = map Val qs \<and> 0 \<notin> set qs \<longrightarrow>
      total N its =
        foldl (num_add N) (num_of_int N 0)
          (map (\<lambda>(it, q). num_mul N (unit_price N it) (num_of_int N q)) (zip its qs))) \<and>
   (orders (snd (createOrder N c b s)) = orders s \<or>
    (\<exists>ord. orders (snd (createOrder N c b s)) = orders s @ [ord] \<and>
       total_amount ord = total N (items c))) \<and>
   (\<not> num_falsy N p100 \<and> \<not> num_falsy N p50 \<longrightarrow>
      total N [i1\<lparr>price := Val p100, quantity := Val 2\<rparr>, i2\<lparr>price := Val p50, quantity := Val 1\<rparr>] =
        num_add N (num_add N (num_of_int N 0) (num_mul N p100 (num_of_int N 2)))
          (num_mul N p50 (num_of_int N 1))) \<and>
   total integer_ops
     [j1\<lparr>price := Val 100, quantity := Val 2\<rparr>, j2\<lparr>price := Val 50, quantity := Val 1\<rparr>] = 250"
proof -
  have general: "\<not> num_falsy N p100 \<and> \<not> num_falsy N p50 \<longrightarrow>
      total N [i1\<lparr>price := Val p100, quantity := Val 2\<rparr>, i2\<lparr>price := Val p50, quantity := Val 1\<rparr>] =
        num_add N (num_add N (num_of_int N 0) (num_mul N p100 (num_of_int N 2)))
          (num_mul N p50 (num_of_int N 1))"
    by (simp add: total_def total_step_def unit_price_def or_num_def)
  have ex: "total integer_ops
      [j1\<lparr>price := Val 100, quantity := Val 2\<rparr>, j2\<lparr>price := Val 50, quantity := Val 1\<rparr>] = 250"
    by (simp add: total_def total_step_def unit_price_def or_num_def integer_ops_def)
  have numeric: "map quantity its = map Val qs \<and> 0 \<notin> set qs \<longrightarrow>
      total N its =
        foldl (num_add N) (num_of_int N 0)
          (map (\<lambda>(it, q). num_mul N (unit_price N it) (num_of_int N q)) (zip its qs))"
    using products_numeric_quantities [of its qs N] by (simp add: total_running_sum)
  from total_running_sum [of N its] numeric orders_after_createOrder [of N c b s] general ex
  show ?thesis by blast
qed

theorem total_is_pre_reconciliation_sum_witness:
  "total integer_ops [sample_item, sample_item\<lparr>quantity := Val 3\<rparr>] = 500 \<and>
   map total_amount
     (orders (snd (createOrder integer_ops sample_checkout all_ok (sample_store [''p2''])))) = [200]"
proof -
  let ?its = "[sample_item, sample_item\<lparr>quantity := Val 3\<rparr>]"
  have q: "map quantity ?its = map Val [2, 3] \<and> (0::int) \<notin> set [2, 3]"
    by (simp add: sample_item_def)
  have t: "total integer_ops (items sample_checkout) = 200"
    by (simp add: sample_checkout_def total_def total_step_def sample_item_def unit_price_def
        or_num_def integer_ops_def)
  have o: "orders (sample_store [''p2'']) = []"
    by (simp add: sample_store_def)
  have n: "orders (snd (createOrder integer_ops sample_checkout all_ok (sample_store [''p2'']))) \<noteq> []"
    by (simp add: createOrder_def place_def Let_def request_def sample_checkout_def all_ok_def
        validate_payment_def)
  note T = total_is_pre_reconciliation_sum
    [of integer_ops ?its "[2, 3]" sample_checkout all_ok "sample_store [''p2'']"]
  from T q have "total integer_ops ?its =
      foldl (num_add integer_ops) (num_of_int integer_ops 0)
        (map (\<lambda>(it, q). num_mul integer_ops (unit_price integer_ops it) (num_of_int integer_ops q))
          (zip ?its [2, 3]))"
    by blast
  then have 1: "total integer_ops ?its = 500"
    by (simp add: sample_item_def unit_price_def or_num_def integer_ops_def)
  from T n o t have "\<exists>ord.
      orders (snd (createOrder integer_ops sample_checkout all_ok (sample_store [''p2'']))) = [ord] \<and>
      total_amount ord = 200"
    by auto
  then have 2: "map total_amount
      (orders (snd (createOrder integer_ops sample_checkout all_ok (sample_store [''p2''])))) = [200]"
    by auto
  from 1 2 show ?thesis ..
qed

text \<open>
  The claim C2 as stated fails: the sample row with quantity 0 has unit price 100, so unit
  price times quantity is 0, but the total computed for it is 100.
\<close>

theorem zero_quantity_total_counterexample:
  "quantity (sample_item\<lparr>quantity := Val 0\<rparr>) = Val 0 \<and>
   unit_price integer_ops (sample_item\<lparr>quantity := Val 0\<rparr>) = 100 \<and>
   total integer_ops [sample_item\<lparr>quantity := Val 0\<rparr>] = 100 \<and>
   total integer_ops [sample_item\<lparr>quantity := Val 0\<rparr>] \<noteq>
     unit_price integer_ops (sample_item\<lparr>quantity := Val 0\<rparr>) * 0"
  by (simp add: total_def total_step_def unit_price_def or_num_def integer_ops_def sample_item_def)

section \<open>Which items become order lines\<close>

lemma prodId_cases:
  "prodId it = (case product_id it of Val p \<Rightarrow> if p \<noteq> [] then Val p else item_id it | _ \<Rightarrow> item_id it)"
  by (cases "product_id it") (simp_all add: prodId_def or_str_def)

lemma unit_price_cases:
  "unit_price N it =
     (let nested = (case products it of
                      Val r \<Rightarrow> (case row_price r of
                                  Val q \<Rightarrow> if num_falsy N q then num_of_int N 0 else q
                                | _ \<Rightarrow> num_of_int N 0)
                    | _ \<Rightarrow> num_of_int N 0)
      in case price it of Val p \<Rightarrow> if num_falsy N p then nested else p | _ \<Rightarrow> nested)"
proof -
  have n: "or_num_lit N (products_price (products it)) 0 =
      (case products it of
         Val r \<Rightarrow> (case row_price r of
                     Val q \<Rightarrow> if num_falsy N q then num_of_int N 0 else q
                   | _ \<Rightarrow> num_of_int N 0)
       | _ \<Rightarrow> num_of_int N 0)"
    by (cases "products it") (auto split: js.splits)
  show ?thesis
    unfolding Let_def n [symmetric]
    by (cases "price it") (simp_all add: unit_price_def or_num_def)
qed

lemma unit_price_zero_falsy:
  assumes "\<forall>n. num_falsy N n \<longleftrightarrow> n = num_of_int N 0"
  shows "unit_price N it =
     (let nested = (case products it of
                      Val r \<Rightarrow> (case row_price r of Val q \<Rightarrow> q | _ \<Rightarrow> num_of_int N 0)
                    | _ \<Rightarrow> num_of_int N 0)
      in case price it of
           Val p \<Rightarrow> if p \<noteq> num_of_int N 0 then p else nested
         | _ \<Rightarrow> nested)"
  unfolding unit_price_cases Let_def using assms
  by (auto split: js.splits)

text \<open>
  Claim C3, as the code has it. The order lines are the items whose resolved product
  identity is in the catalogue, in order, each judged on its own: a discarded item
  changes nothing for the others. The resolved identity is the product-reference field
  when it is present and not empty, otherwise the bare identity field. The unit price
  of a line is the item's own price when it is present and not falsy, otherwise the nested
  product's price when it is present and not falsy, otherwise zero; where zero is the
  only falsy number, that is the item's own price when it is present and not zero,
  otherwise the nested product's price when it is present, otherwise zero.
\<close>

theorem reconciliation_keeps_catalogue_items:
  "orderItems N oid valid its =
     map (\<lambda>it. \<lparr>oi_order_id = oid, oi_product_id = prodId it, oi_quantity = quantity it,
                 oi_price = unit_price N it\<rparr>)
       (filter (\<lambda>it. prodId it \<in> set valid) its) \<and>
   list_all (\<lambda>l. oi_product_id l \<in> set valid) (orderItems N oid valid its) \<and>
   orderItems N oid valid (xs @ x # ys) =
     orderItems N oid valid xs @ orderItems N oid valid [x] @ orderItems N oid valid ys \<and>
   (prodId x \<notin> set valid \<longrightarrow> orderItems N oid valid (xs @ x # ys) = orderItems N oid valid (xs @ ys)) \<and>
   prodId it =
     (case product_id it of Val p \<Rightarrow> if p \<noteq> [] then Val p else item_id it | _ \<Rightarrow> item_id it) \<and>
   unit_price N it =
     (let nested = (case products it of
                      Val r \<Rightarrow> (case row_price r of
                                  Val q \<Rightarrow> if num_falsy N q then num_of_int N 0 else q
                                | _ \<Rightarrow> num_of_int N 0)
                    | _ \<Rightarrow> num_of_int N 0)
      in case price it of Val p \<Rightarrow> if num_falsy N p then nested else p | _ \<Rightarrow> nested) \<and>
   ((\<forall>n. num_falsy N n \<longleftrightarrow> n = num_of_int N 0) \<longrightarrow>
      unit_price N it =
        (let nested = (case products it of
                         Val r \<Rightarrow> (case row_price r of Val q \<Rightarrow> q | _ \<Rightarrow> num_of_int N 0)
                       | _ \<Rightarrow> num_of_int N 0)
         in case price it of
              Val p \<Rightarrow> if p \<noteq> num_of_int N 0 then p else nested
            | _ \<Rightarrow> nested))"
proof -
  have 1: "list_all (\<lambda>l. oi_product_id l \<in> set valid) (orderItems N oid valid its)"
    by (simp add: orderItems_eq list_all_iff)
  have 2: "orderItems N oid valid (xs @ x # ys) =
      orderItems N oid valid xs @ orderItems N oid valid [x] @ orderItems N oid valid ys"
    by (simp add: orderItems_eq)
  have 3: "prodId x \<notin> set valid \<longrightarrow>
      orderItems N oid valid (xs @ x # ys) = orderItems N oid valid (xs @ ys)"
    by (simp add: orderItems_eq)
  have 4: "(\<forall>n. num_falsy N n \<longleftrightarrow> n = num_of_int N 0) \<longrightarrow>
      unit_price N it =
        (let nested = (case products it of
                         Val r \<Rightarrow> (case row_price r of Val q \<Rightarrow> q | _ \<Rightarrow> num_of_int N 0)
                       | _ \<Rightarrow> num_of_int N 0)
         in case price it of
              Val p \<Rightarrow> if p \<noteq> num_of_int N 0 then p else nested
            | _ \<Rightarrow> nested)"
    using unit_price_zero_falsy [of N it] by blast
  from orderItems_eq [of N oid valid its] 1 2 3 prodId_cases [of it] unit_price_cases [of N it] 4
  show ?thesis by blast
qed

theorem reconciliation_keeps_catalogue_items_witness:
  "orderItems integer_ops ''o1'' [Val ''p1'']
     [sample_item\<lparr>product_id := Val ''p9''\<rparr>, sample_item, sample_item\<lparr>product_id := Null, item_id := Val ''p1''\<rparr>] =
     [\<lparr>oi_order_id = ''o1'', oi_product_id = Val ''p1'', oi_quantity = Val 2, oi_price = 100\<rparr>,
      \<lparr>oi_order_id = ''o1'', oi_product_id = Val ''p1'', oi_quantity = Val 2, oi_price = 100\<rparr>]"
proof -
  let ?a = "sample_item\<lparr>product_id := Val ''p9''\<rparr>"
  let ?c = "sample_item\<lparr>product_id := Null, item_id := Val ''p1''\<rparr>"
  have drop: "prodId ?a \<notin> set [Val ''p1'']"
    by (simp add: prodId_def or_str_def sample_item_def)
  note T = reconciliation_keeps_catalogue_items
    [of integer_ops "''o1''" "[Val ''p1'']" "[sample_item, ?c]" "[]" ?a "[sample_item, ?c]"]
  note kept = T [THEN conjunct1]
  note dropped = T [THEN conjunct2, THEN conjunct2, THEN conjunct2, THEN conjunct1, rule_format, OF drop]
  have "orderItems integer_ops ''o1'' [Val ''p1''] [?a, sample_item, ?c] =
      orderItems integer_ops ''o1'' [Val ''p1''] [sample_item, ?c]"
    using dropped by (simp only: append_Nil)
  also note kept
  finally show ?thesis
    by (simp add: prodId_def or_str_def unit_price_def or_num_def integer_ops_def sample_item_def)
qed

text \<open>
  The claim C3 as stated fails on the price: the sample row carrying the price 0 itself,
  with a nested product of price 100, is kept with the unit price 100, not 0.
\<close>

theorem zero_price_counterexample:
  "price (sample_item\<lparr>price := Val 0\<rparr>) = Val 0 \<and>
   orderItems integer_ops ''o1'' [Val ''p1''] [sample_item\<lparr>price := Val 0\<rparr>] =
     [\<lparr>oi_order_id = ''o1'', oi_product_id = Val ''p1'', oi_quantity = Val 2, oi_price = 100\<rparr>]"
  by (simp add: orderItems_def order_line_def prodId_def or_str_def unit_price_def or_num_def integer_ops_def
      sample_item_def)

section \<open>The buy-now item\<close>

text \<open>
  Claim C8, as the code has it. In a buy-now context the items to pay for are exactly one
  item: the supplied product with its quantity set. The quantity is 1 when the supplied
  quantity is missing, null or zero, and the supplied quantity otherwise: a positive
  quantity is kept (and is at least 1), and a negative one is kept as well.
\<close>

theorem buy_now_single_item:
  assumes "buyNow st"
  shows "itemsForPayment st cartItems = [(product st)\<lparr>quantity := Val (buyNowQuantity st)\<rparr>] \<and>
         length (itemsForPayment st cartItems) = 1 \<and>
         buyNowQuantity st = (case state_quantity st of Val n \<Rightarrow> if n = 0 then 1 else n | _ \<Rightarrow> 1) \<and>
         (state_quantity st \<in> {Undefined, Null, Val 0} \<longrightarrow> buyNowQuantity st = 1) \<and>
         (\<forall>n. state_quantity st = Val n \<and> 0 < n \<longrightarrow>
            buyNowQuantity st = n \<and> 1 \<le> buyNowQuantity st) \<and>
         (\<forall>n. state_quantity st = Val n \<and> n < 0 \<longrightarrow> buyNowQuantity st = n)"
  using assms
  by (cases "state_quantity st") (auto simp: itemsForPayment_def buyNowQuantity_def)

theorem buy_now_single_item_witness:
  "itemsForPayment \<lparr>buyNow = True, product = sample_item, state_quantity = Val 0\<rparr> (Some []) =
     [sample_item\<lparr>quantity := Val 1\<rparr>]"
proof -
  let ?st = "\<lparr>buyNow = True, product = sample_item, state_quantity = Val 0\<rparr>"
  have "buyNow ?st" by simp
  from buy_now_single_item [OF this, of "Some []"] show ?thesis by simp
qed

text \<open>
  The claim C8 as stated fails: a supplied quantity of -3 is not coerced; the single item
  has quantity -3.
\<close>

theorem negative_quantity_counterexample:
  "buyNow \<lparr>buyNow = True, product = sample_item, state_quantity = Val (- 3)\<rparr> \<and>
   map quantity
     (itemsForPayment \<lparr>buyNow = True, product = sample_item, state_quantity = Val (- 3)\<rparr> None) =
     [Val (- 3)] \<and>
   \<not> 1 \<le> buyNowQuantity \<lparr>buyNow = True, product = sample_item, state_quantity = Val (- 3)\<rparr>"
  by (simp add: itemsForPayment_def buyNowQuantity_def)

lemma or_lit_falsy: "q \<in> {Undefined, Null, Val 0} \<Longrightarrow> or_lit q k = k"
  by auto

lemma zero_quantity_order:
  "fst (createOrder integer_ops (sample_checkout\<lparr>items := [sample_item\<lparr>quantity := Val 0\<rparr>]\<rparr>) all_ok
          (sample_store [''p1''])) =
     Inr (new_order integer_ops ''u1'' (sample_checkout\<lparr>items := [sample_item\<lparr>quantity := Val 0\<rparr>]\<rparr>) all_ok) \<and>
   order_items (snd (createOrder integer_ops (sample_checkout\<lparr>items := [sample_item\<lparr>quantity := Val 0\<rparr>]\<rparr>) all_ok
          (sample_store [''p1'']))) =
     [\<lparr>oi_order_id = ''o1'', oi_product_id = Val ''p1'', oi_quantity = Val 0, oi_price = 100\<rparr>]"
proof -
  let ?c = "sample_checkout\<lparr>items := [sample_item\<lparr>quantity := Val 0\<rparr>]\<rparr>"
  let ?s = "sample_store [''p1'']"
  let ?lines = "orderItems integer_ops (new_order_id all_ok) (map row_id (products_table ?s)) (items ?c)"
  have pre: "user ?c = Some ''u1''" "items ?c \<noteq> []" "address ?c \<noteq> []" "phone ?c \<noteq> []"
    "validate_payment ?c = None"
    by (simp_all add: sample_checkout_def validate_payment_def)
  have lines: "?lines =
      [\<lparr>oi_order_id = ''o1'', oi_product_id = Val ''p1'', oi_quantity = Val 0, oi_price = 100\<rparr>]"
    by (simp add: orderItems_def order_line_def prodId_def or_str_def unit_price_def or_num_def integer_ops_def
        sample_item_def sample_store_def all_ok_def)
  then have ne: "?lines \<noteq> []"
    by (simp only: list.distinct not_False_eq_True)
  have b: "orderError all_ok = None" "prodErr all_ok = None" "itemsError all_ok = None"
    "clearError all_ok = None" "\<not> isBuyNow ?c"
    by (simp_all add: all_ok_def sample_checkout_def)
  have empty: "order_items ?s = []"
    by (simp add: sample_store_def)
  have "createOrder integer_ops ?c all_ok ?s = place integer_ops ''u1'' ?c all_ok ?s"
    using pre by (rule createOrder_place)
  also have "\<dots> = (Inr (new_order integer_ops ''u1'' ?c all_ok),
      ?s\<lparr>orders := orders ?s @ [new_order integer_ops ''u1'' ?c all_ok],
        order_items := order_items ?s @ ?lines,
        cart_items := filter (\<lambda>row. fst row \<noteq> ''u1'') (cart_items ?s),
        calls := calls ?s @ [InsertOrder, SelectProductIds, InsertOrderItems, DeleteCartItems]\<rparr>)"
    using b(1,2) ne b(3,5,4) by (rule place_cart_done)
  finally have "fst (createOrder integer_ops ?c all_ok ?s) = Inr (new_order integer_ops ''u1'' ?c all_ok)"
    and "order_items (snd (createOrder integer_ops ?c all_ok ?s)) = order_items ?s @ ?lines"
    by simp_all
  then show ?thesis
    by (simp only: lines empty append_Nil)
qed

text \<open>
  Claim C10. For an item whose quantity is missing, null or zero, the step of the total
  adds its unit price times 1 to the sum so far, while the order line built from it
  carries the quantity as it was. So there is an attempt that succeeds, with a line
  stored for every item, whose stored total differs from the sum of unit price times
  quantity over the stored lines.
\<close>

theorem falsy_quantity_counts_as_one:
  assumes "quantity it \<in> {Undefined, Null, Val 0}"
  shows "total_step N acc it = num_add N acc (num_mul N (unit_price N it) (num_of_int N 1)) \<and>
         total N (xs @ [it]) =
           num_add N (total N xs) (num_mul N (unit_price N it) (num_of_int N 1)) \<and>
         total N (xs @ it # ys) =
           foldl (total_step N)
             (num_add N (total N xs) (num_mul N (unit_price N it) (num_of_int N 1))) ys \<and>
         (prodId it \<in> set valid \<longrightarrow>
            orderItems N oid valid [it] =
              [\<lparr>oi_order_id = oid, oi_product_id = prodId it, oi_quantity = quantity it,
                oi_price = unit_price N it\<rparr>]) \<and>
         (\<exists>c b s ord.
            fst (createOrder integer_ops c b s) = Inr ord \<and>
            order_items s = [] \<and>
            map oi_product_id (order_items (snd (createOrder integer_ops c b s))) =
              map prodId (items c) \<and>
            total_amount ord \<noteq>
              (\<Sum>l\<leftarrow>order_items (snd (createOrder integer_ops c b s)).
                 oi_price l * (case oi_quantity l of Val q \<Rightarrow> q | _ \<Rightarrow> 0)))"
proof -
  have step: "\<And>a. total_step N a it = num_add N a (num_mul N (unit_price N it) (num_of_int N 1))"
    using or_lit_falsy [OF assms, of 1] by (simp add: total_step_def)
  have 1: "total N (xs @ [it]) =
      num_add N (total N xs) (num_mul N (unit_price N it) (num_of_int N 1))"
    by (simp add: total_def step)
  have 2: "total N (xs @ it # ys) =
      foldl (total_step N)
        (num_add N (total N xs) (num_mul N (unit_price N it) (num_of_int N 1))) ys"
    by (simp add: total_def step)
  have 3: "prodId it \<in> set valid \<longrightarrow>
      orderItems N oid valid [it] =
        [\<lparr>oi_order_id = oid, oi_product_id = prodId it, oi_quantity = quantity it,
          oi_price = unit_price N it\<rparr>]"
    by (simp add: orderItems_eq)
  let ?c = "sample_checkout\<lparr>items := [sample_item\<lparr>quantity := Val 0\<rparr>]\<rparr>"
  let ?s = "sample_store [''p1'']"
  let ?ord = "new_order integer_ops ''u1'' ?c all_ok"
  have t: "total_amount ?ord = 100"
    by (simp add: new_order_def total_def total_step_def unit_price_def or_num_def integer_ops_def
        sample_item_def)
  have p: "map prodId (items ?c) = [Val ''p1'']"
    by (simp add: prodId_def or_str_def sample_item_def)
  note Z1 = zero_quantity_order [THEN conjunct1]
  note Z2 = zero_quantity_order [THEN conjunct2]
  have e: "order_items ?s = []"
    by (simp add: sample_store_def)
  have m: "map oi_product_id (order_items (snd (createOrder integer_ops ?c all_ok ?s))) =
      map prodId (items ?c)"
    unfolding Z2 p by simp
  have d: "total_amount ?ord \<noteq>
      (\<Sum>l\<leftarrow>order_items (snd (createOrder integer_ops ?c all_ok ?s)).
         oi_price l * (case oi_quantity l of Val q \<Rightarrow> q | _ \<Rightarrow> 0))"
    unfolding Z2 t by simp
  from Z1 e m d have "fst (createOrder integer_ops ?c all_ok ?s) = Inr ?ord \<and>
      order_items ?s = [] \<and>
      map oi_product_id (order_items (snd (createOrder integer_ops ?c all_ok ?s))) =
        map prodId (items ?c) \<and>
      total_amount ?ord \<noteq>
        (\<Sum>l\<leftarrow>order_items (snd (createOrder integer_ops ?c all_ok ?s)).
           oi_price l * (case oi_quantity l of Val q \<Rightarrow> q | _ \<Rightarrow> 0))"
    by (intro conjI)
  then have 4: "\<exists>c b s ord.
      fst (createOrder integer_ops c b s) = Inr ord \<and>
      order_items s = [] \<and>
      map oi_product_id (order_items (snd (createOrder integer_ops c b s))) =
        map prodId (items c) \<and>
      total_amount ord \<noteq>
        (\<Sum>l\<leftarrow>order_items (snd (createOrder integer_ops c b s)).
           oi_price l * (case oi_quantity l of Val q \<Rightarrow> q | _ \<Rightarrow> 0))"
    by blast
  from step [of acc] 1 2 3 4 show ?thesis by blast
qed

theorem falsy_quantity_counts_as_one_witness:
  "total integer_ops [sample_item, sample_item\<lparr>quantity := Null\<rparr>] = 300 \<and>
   orderItems integer_ops ''o1'' [Val ''p1''] [sample_item\<lparr>quantity := Null\<rparr>] =
     [\<lparr>oi_order_id = ''o1'', oi_product_id = Val ''p1'', oi_quantity = Null, oi_price = 100\<rparr>]"
proof -
  let ?it = "sample_item\<lparr>quantity := Null\<rparr>"
  have q: "quantity ?it \<in> {Undefined, Null, Val 0}" by simp
  have p: "prodId ?it \<in> set [Val ''p1'']"
    by (simp add: prodId_def or_str_def sample_item_def)
  note T = falsy_quantity_counts_as_one
    [OF q, where N = integer_ops and xs = "[sample_item]" and valid = "[Val ''p1'']" and oid = "''o1''"]
  note a = T [THEN conjunct2, THEN conjunct1]
  note b = T [THEN conjunct2, THEN conjunct2, THEN conjunct2, THEN conjunct1, rule_format, OF p]
  have "total integer_ops [sample_item] = 200" "unit_price integer_ops ?it = 100"
    "prodId ?it = Val ''p1''"
    by (simp_all add: total_def total_step_def unit_price_def or_num_def integer_ops_def prodId_def
        or_str_def sample_item_def)
  with a b show ?thesis by (simp add: integer_ops_def)
qed

end
